theory Spec2Isabelle
  imports Complex_Main "HOL-Library.Log_Nat" "HOL-Library.Stream"
begin

section \<open>The arithmetic of \<open>double\<close>\<close>

text \<open>
  Every class of \<^verbatim>\<open>main.cpp\<close> is instantiated at \<^verbatim>\<open>T = double\<close> only. A \<open>double\<close> is
  modelled as an IEEE 754 binary64 datum: a finite value (held as the real number it
  denotes), the negative zero, an infinity with its sign, or a NaN (one NaN: sign and
  payload of a NaN are not represented). \<open>+\<close>, \<open>*\<close>, \<open>/\<close> and unary \<open>-\<close> are the IEEE
  operations in the default rounding mode (to nearest, ties to even): the exact real
  result is rounded to 53 significant bits, with gradual underflow below \<open>2^-1022\<close> and
  overflow to an infinity from \<open>2^1024\<close> on. Every operation of the source is rounded on
  its own: a product and a sum are not contracted into one fused operation, and no
  intermediate result is kept in a wider format.
\<close>

datatype double = Finite real | NegZero | Infinity bool | NaN

text \<open>The real value of a finite datum, and the sign bit (\<open>True\<close> is negative).\<close>

fun dval :: "double \<Rightarrow> real" where
  "dval (Finite r) = r"
| "dval NegZero = 0"
| "dval (Infinity s) = 0"
| "dval NaN = 0"

fun dsign :: "double \<Rightarrow> bool" where
  "dsign (Finite r) = (r < 0)"
| "dsign NegZero = True"
| "dsign (Infinity s) = s"
| "dsign NaN = False"

fun is_finite :: "double \<Rightarrow> bool" where
  "is_finite (Finite r) = True"
| "is_finite NegZero = True"
| "is_finite (Infinity s) = False"
| "is_finite NaN = False"

definition pow2 :: "int \<Rightarrow> real" where
  "pow2 k = (if 0 \<le> k then 2 ^ nat k else 1 / 2 ^ nat (- k))"

text \<open>\<open>ilog b a\<close> is \<open>\<lfloor>log\<^sub>b a\<rfloor>\<close> for \<open>a > 0\<close>, computed on integers.\<close>

definition ilog :: "nat \<Rightarrow> real \<Rightarrow> int" where
  "ilog b a = (if 1 \<le> a then int (floorlog b (nat \<lfloor>a\<rfloor>)) - 1
               else - int (floorlog b (nat (\<lceil>1 / a\<rceil> - 1))))"

text \<open>Rounding to the nearest integer, a tie going to the even one.\<close>

definition round_even :: "real \<Rightarrow> int" where
  "round_even v = (let n = \<lfloor>v\<rfloor>; f = v - of_int n in
     if f < 1 / 2 then n else if 1 / 2 < f then n + 1 else if even n then n else n + 1)"

text \<open>
  The exponent of the last place of a magnitude \<open>m > 0\<close>: 52 below the binade of \<open>m\<close>, and
  \<open>-1074\<close> throughout the subnormal range.
\<close>

definition ulp_exp :: "real \<Rightarrow> int" where
  "ulp_exp m = max (ilog 2 m) (- 1022) - 52"

definition round_mag :: "real \<Rightarrow> real" where
  "round_mag m = (if m \<le> 0 then 0
     else of_int (round_even (m / pow2 (ulp_exp m))) * pow2 (ulp_exp m))"

text \<open>The datum for the magnitude \<open>m \<ge> 0\<close> under the sign \<open>s\<close>, after rounding.\<close>

definition round_double :: "bool \<Rightarrow> real \<Rightarrow> double" where
  "round_double s m = (let r = round_mag m in
     if pow2 1024 \<le> r then Infinity s
     else if r = 0 then (if s then NegZero else Finite 0)
     else Finite (if s then - r else r))"

text \<open>
  The datum for the exact result \<open>v\<close>; \<open>zs\<close> is the sign the operation gives an exact
  zero.
\<close>

definition round_real :: "bool \<Rightarrow> real \<Rightarrow> double" where
  "round_real zs v = (if v = 0 then (if zs then NegZero else Finite 0)
     else round_double (v < 0) \<bar>v\<bar>)"

fun fneg :: "double \<Rightarrow> double" where
  "fneg (Finite r) = (if r = 0 then NegZero else Finite (- r))"
| "fneg NegZero = Finite 0"
| "fneg (Infinity s) = Infinity (\<not> s)"
| "fneg NaN = NaN"

fun fadd :: "double \<Rightarrow> double \<Rightarrow> double" where
  "fadd NaN v = NaN"
| "fadd u NaN = NaN"
| "fadd (Infinity s) (Infinity t) = (if s = t then Infinity s else NaN)"
| "fadd (Infinity s) v = Infinity s"
| "fadd u (Infinity t) = Infinity t"
| "fadd u v = round_real (dsign u \<and> dsign v) (dval u + dval v)"

fun fmul :: "double \<Rightarrow> double \<Rightarrow> double" where
  "fmul NaN v = NaN"
| "fmul u NaN = NaN"
| "fmul (Infinity s) (Infinity t) = Infinity (s \<noteq> t)"
| "fmul (Infinity s) v = (if dval v = 0 then NaN else Infinity (s \<noteq> dsign v))"
| "fmul u (Infinity t) = (if dval u = 0 then NaN else Infinity (dsign u \<noteq> t))"
| "fmul u v = round_real (dsign u \<noteq> dsign v) (dval u * dval v)"

fun fdiv :: "double \<Rightarrow> double \<Rightarrow> double" where
  "fdiv NaN v = NaN"
| "fdiv u NaN = NaN"
| "fdiv (Infinity s) (Infinity t) = NaN"
| "fdiv (Infinity s) v = Infinity (s \<noteq> dsign v)"
| "fdiv u (Infinity t) = (if dsign u \<noteq> t then NegZero else Finite 0)"
| "fdiv u v = (if dval v = 0 then (if dval u = 0 then NaN else Infinity (dsign u \<noteq> dsign v))
               else round_real (dsign u \<noteq> dsign v) (dval u / dval v))"

text \<open>
  The comparisons \<open><\<close> and \<open><=\<close> of C++ on doubles: a NaN compares false with
  everything, the two zeros are equal.
\<close>

fun ord_key :: "double \<Rightarrow> (int \<times> real) option" where
  "ord_key (Finite r) = Some (0, r)"
| "ord_key NegZero = Some (0, 0)"
| "ord_key (Infinity s) = Some (if s then - 1 else 1, 0)"
| "ord_key NaN = None"

definition double_less :: "double \<Rightarrow> double \<Rightarrow> bool" where
  "double_less u v = (case (ord_key u, ord_key v) of
      (Some (i, p), Some (j, q)) \<Rightarrow> i < j \<or> (i = j \<and> p < q)
    | _ \<Rightarrow> False)"

definition double_le :: "double \<Rightarrow> double \<Rightarrow> bool" where
  "double_le u v = (case (ord_key u, ord_key v) of
      (Some (i, p), Some (j, q)) \<Rightarrow> i < j \<or> (i = j \<and> p \<le> q)
    | _ \<Rightarrow> False)"

text \<open>
  Conversion from \<open>int\<close> (the \<open>0\<close> and \<open>2\<close> literals, the values drawn from the
  distribution) and of a decimal literal, both correctly rounded.
\<close>

definition double_of_real :: "real \<Rightarrow> double" where
  "double_of_real v = round_real False v"

definition double_of_int :: "int \<Rightarrow> double" where
  "double_of_int i = double_of_real (of_int i)"

text \<open>A datum is a double when rounding leaves it as it is.\<close>

fun is_double :: "double \<Rightarrow> bool" where
  "is_double (Finite r) = (double_of_real r = Finite r)"
| "is_double v = True"

text \<open>
  \<^verbatim>\<open>M_PI\<close> of \<^verbatim>\<open><cmath>\<close> is the literal 3.14159265358979323846, that is the double
  \<open>884279719003555 / 2^48\<close>.
\<close>

definition M_PI :: double where
  "M_PI = Finite (884279719003555 / 2 ^ 48)"

text \<open>
  \<^verbatim>\<open>cos\<close> and \<^verbatim>\<open>sin\<close> are functions of the C library, not of this program, and the
  standard fixes no rounding for them: the model takes them as parameters.
\<close>

record cmath =
  cos_d :: "double \<Rightarrow> double"
  sin_d :: "double \<Rightarrow> double"

text \<open>
  One instance of the parameter, for the closed statements below: the library whose
  \<open>cos\<close> and \<open>sin\<close> are the exact ones, correctly rounded. A C library promises no
  such accuracy: the theorems below that depend on the values of \<open>cos\<close> and \<open>sin\<close> hold
  for every library, under the accuracy they state as a hypothesis.
\<close>

definition correctly_rounded :: cmath where
  "correctly_rounded =
     \<lparr>cos_d = (\<lambda>v. if is_finite v then double_of_real (cos (dval v)) else NaN),
      sin_d = (\<lambda>v. if is_finite v then round_real (dsign v) (sin (dval v)) else NaN)\<rparr>"

section \<open>Vectors and curves\<close>

record vector3d =
  x :: double
  y :: double
  z :: double

record curve3d =
  position :: vector3d

record ellipse3d = curve3d +
  a :: double
  b :: double

record helix3d = curve3d +
  a :: double
  b :: double
  step :: double
  angle_start :: double

text \<open>The constructors, in the order of the source.\<close>

definition vector3d_new :: "double \<Rightarrow> double \<Rightarrow> double \<Rightarrow> vector3d" where
  "vector3d_new vx vy vz = \<lparr>x = vx, y = vy, z = vz\<rparr>"

definition ellipse3d_xyzab :: "double \<Rightarrow> double \<Rightarrow> double \<Rightarrow> double \<Rightarrow> double \<Rightarrow> ellipse3d" where
  "ellipse3d_xyzab px py pz ra rb =
     \<lparr>position = vector3d_new px py pz, ellipse3d.a = ra, ellipse3d.b = rb\<rparr>"

definition ellipse3d_xyab :: "double \<Rightarrow> double \<Rightarrow> double \<Rightarrow> double \<Rightarrow> ellipse3d" where
  "ellipse3d_xyab px py ra rb = ellipse3d_xyzab px py (double_of_int 0) ra rb"

text \<open>
  \<^verbatim>\<open>circle3d\<close> derives from \<^verbatim>\<open>ellipse3d\<close> and adds no member: a circle is its
  \<^verbatim>\<open>ellipse3d\<close> subobject.
\<close>

type_synonym circle3d = ellipse3d

definition circle3d_xyzr :: "double \<Rightarrow> double \<Rightarrow> double \<Rightarrow> double \<Rightarrow> circle3d" where
  "circle3d_xyzr px py pz r = ellipse3d_xyzab px py pz r r"

definition circle3d_xyr :: "double \<Rightarrow> double \<Rightarrow> double \<Rightarrow> circle3d" where
  "circle3d_xyr px py r = circle3d_xyzr px py (double_of_int 0) r"

definition helix3d_full ::
  "double \<Rightarrow> double \<Rightarrow> double \<Rightarrow> double \<Rightarrow> double \<Rightarrow> double \<Rightarrow> double \<Rightarrow> helix3d" where
  "helix3d_full px py pz ra rb st phase =
     \<lparr>position = vector3d_new px py pz, helix3d.a = ra, helix3d.b = rb,
      step = st, angle_start = phase\<rparr>"

definition helix3d_xyzrs :: "double \<Rightarrow> double \<Rightarrow> double \<Rightarrow> double \<Rightarrow> double \<Rightarrow> helix3d" where
  "helix3d_xyzrs px py pz r st = helix3d_full px py pz r r st (double_of_int 0)"

text \<open>\<^verbatim>\<open>ellipse3d::calculate\<close> and \<^verbatim>\<open>ellipse3d::derivative\<close>.\<close>

definition ellipse3d_calculate :: "cmath \<Rightarrow> ellipse3d \<Rightarrow> double \<Rightarrow> vector3d" where
  "ellipse3d_calculate M e angle =
     vector3d_new (fadd (x (position e)) (fmul (ellipse3d.a e) (cos_d M angle)))
                  (fadd (y (position e)) (fmul (ellipse3d.b e) (sin_d M angle)))
                  (z (position e))"

definition ellipse3d_derivative :: "cmath \<Rightarrow> ellipse3d \<Rightarrow> double \<Rightarrow> vector3d" where
  "ellipse3d_derivative M e angle =
     vector3d_new (fmul (ellipse3d.a e) (fneg (sin_d M angle)))
                  (fmul (ellipse3d.b e) (cos_d M angle))
                  (double_of_int 0)"

text \<open>\<^verbatim>\<open>helix3d::calculate\<close> and \<^verbatim>\<open>helix3d::derivative\<close>.\<close>

definition helix3d_calculate :: "cmath \<Rightarrow> helix3d \<Rightarrow> double \<Rightarrow> vector3d" where
  "helix3d_calculate M h angle =
     vector3d_new (fadd (x (position h)) (fmul (helix3d.a h) (cos_d M angle)))
                  (fadd (y (position h)) (fmul (helix3d.b h) (sin_d M angle)))
                  (fadd (z (position h))
                     (fmul (fdiv (fadd (angle_start h) angle) (fmul M_PI (double_of_int 2)))
                           (step h)))"

definition helix3d_derivative :: "cmath \<Rightarrow> helix3d \<Rightarrow> double \<Rightarrow> vector3d" where
  "helix3d_derivative M h angle =
     vector3d_new (fmul (helix3d.a h) (fneg (sin_d M angle)))
                  (fmul (helix3d.b h) (cos_d M angle))
                  (fdiv (step h) (fmul M_PI (double_of_int 2)))"

text \<open>
  A pointer to \<^verbatim>\<open>curve3d\<close> holds an object of one of the three classes; the constructor
  is its dynamic type, and the virtual calls dispatch on it.
\<close>

datatype curve = Ellipse ellipse3d | Circle circle3d | Helix helix3d

fun calculate :: "cmath \<Rightarrow> curve \<Rightarrow> double \<Rightarrow> vector3d" where
  "calculate M (Ellipse e) angle = ellipse3d_calculate M e angle"
| "calculate M (Circle c) angle = ellipse3d_calculate M c angle"
| "calculate M (Helix h) angle = helix3d_calculate M h angle"

fun derivative :: "cmath \<Rightarrow> curve \<Rightarrow> double \<Rightarrow> vector3d" where
  "derivative M (Ellipse e) angle = ellipse3d_derivative M e angle"
| "derivative M (Circle c) angle = ellipse3d_derivative M c angle"
| "derivative M (Helix h) angle = helix3d_derivative M h angle"

section \<open>Printing a vector\<close>

text \<open>
  A stream writes a \<open>double\<close> as \<^verbatim>\<open>printf\<close> does: with \<^verbatim>\<open>%.*f\<close> when the flag
  \<^verbatim>\<open>std::fixed\<close> is set and with \<^verbatim>\<open>%.*g\<close> when no float flag is set, at the precision
  of the stream. Both conversions round the exact value of the double to the digits
  they keep, a tie going to the even digit. The program sets no other flag, width or
  locale, and they are not modelled; neither is the sign of a NaN.
\<close>

definition pow10 :: "int \<Rightarrow> real" where
  "pow10 k = (if 0 \<le> k then 10 ^ nat k else 1 / 10 ^ nat (- k))"

definition digit_char :: "nat \<Rightarrow> char" where
  "digit_char d = ''0123456789'' ! d"

text \<open>The decimal digits of a natural number, the most significant first.\<close>

fun dec_digits :: "nat \<Rightarrow> string" where
  "dec_digits n = (if n < 10 then [digit_char n]
                   else dec_digits (n div 10) @ [digit_char (n mod 10)])"

declare dec_digits.simps [simp del]

definition pad_zeros :: "nat \<Rightarrow> string \<Rightarrow> string" where
  "pad_zeros w ds = replicate (w - length ds) CHR ''0'' @ ds"

definition strip_zeros :: "string \<Rightarrow> string" where
  "strip_zeros ds = rev (dropWhile (\<lambda>c. c = CHR ''0'') (rev ds))"

text \<open>\<^verbatim>\<open>%.pf\<close> of a magnitude: the integer part, and \<open>p\<close> decimals after a point.\<close>

definition fixed_mag :: "nat \<Rightarrow> real \<Rightarrow> string" where
  "fixed_mag p m =
     (let n = nat (round_even (m * 10 ^ p)) in
      dec_digits (n div 10 ^ p) @
      (if p = 0 then [] else ''.'' @ pad_zeros p (dec_digits (n mod 10 ^ p))))"

text \<open>
  \<^verbatim>\<open>%.pg\<close> of a magnitude: \<open>P\<close> significant digits (\<open>P\<close> is \<open>p\<close>, or 1 when \<open>p\<close> is 0); with
  \<open>X\<close> the decimal exponent of the rounded value, the fixed notation with \<open>P - 1 - X\<close>
  decimals when \<open>-4 \<le> X < P\<close> and the exponent notation with \<open>P - 1\<close> decimals otherwise;
  the zeros at the end of the decimals are dropped, and the point with them when no
  decimal is left.
\<close>

definition general_mag :: "nat \<Rightarrow> real \<Rightarrow> string" where
  "general_mag p m =
     (let P = (if p = 0 then 1 else p) in
      if m = 0 then ''0''
      else
        let e0 = ilog 10 m;
            n0 = nat (round_even (m / pow10 (e0 - int P + 1)));
            X = (if n0 = 10 ^ P then e0 + 1 else e0);
            n = (if n0 = 10 ^ P then 10 ^ (P - 1) else n0)
        in if - 4 \<le> X \<and> X < int P
           then (let k = nat (int P - 1 - X);
                     fr = strip_zeros (pad_zeros k (dec_digits (n mod 10 ^ k)))
                 in dec_digits (n div 10 ^ k) @ (if fr = [] then [] else ''.'' @ fr))
           else (let ds = dec_digits n;
                     fr = strip_zeros (tl ds)
                 in [hd ds] @ (if fr = [] then [] else ''.'' @ fr) @ ''e'' @
                    (if X < 0 then ''-'' else ''+'') @ pad_zeros 2 (dec_digits (nat \<bar>X\<bar>))))"

datatype floatfield = FloatDefault | FloatFixed

definition num_put :: "floatfield \<Rightarrow> nat \<Rightarrow> double \<Rightarrow> string" where
  "num_put ff p d =
     (let mag = (case ff of FloatFixed \<Rightarrow> fixed_mag p | FloatDefault \<Rightarrow> general_mag p) in
      case d of
        NaN \<Rightarrow> ''nan''
      | Infinity s \<Rightarrow> (if s then ''-inf'' else ''inf'')
      | NegZero \<Rightarrow> ''-'' @ mag 0
      | Finite r \<Rightarrow> (if r < 0 then ''-'' else []) @ mag \<bar>r\<bar>)"

text \<open>
  The state of an output stream: its float flag, its precision, and the text written so
  far. A stream starts with no float flag and the precision 6; so does \<^verbatim>\<open>std::cout\<close>,
  whose flags \<open>main\<close> never changes.
\<close>

record ostream =
  floatfield_of :: floatfield
  precision :: nat
  buffer :: string

definition ostream_new :: ostream where
  "ostream_new = \<lparr>floatfield_of = FloatDefault, precision = 6, buffer = []\<rparr>"

definition put_string :: "ostream \<Rightarrow> string \<Rightarrow> ostream" where
  "put_string os s = os\<lparr>buffer := buffer os @ s\<rparr>"

definition put_double :: "ostream \<Rightarrow> double \<Rightarrow> ostream" where
  "put_double os d = put_string os (num_put (floatfield_of os) (precision os) d)"

text \<open>\<^verbatim>\<open>operator<<\<close> of \<^verbatim>\<open>vector3d\<close> (lines 20 to 23): it writes to the stream as it finds it.\<close>

definition vector3d_out :: "ostream \<Rightarrow> vector3d \<Rightarrow> ostream" where
  "vector3d_out os rhs =
     put_string (put_double (put_string (put_double (put_string (put_double
       (put_string os ''{'') (x rhs)) '','') (y rhs)) '','') (z rhs)) ''}''"

text \<open>
  \<^verbatim>\<open>vector3d::str\<close> (lines 25 to 31): a fresh string stream, set to \<^verbatim>\<open>std::fixed\<close> and to
  the precision 2.
\<close>

definition str :: "vector3d \<Rightarrow> string" where
  "str v =
     (let ss0 = ostream_new;
          ss1 = ss0\<lparr>floatfield_of := FloatFixed\<rparr>;
          ss2 = ss1\<lparr>precision := 2\<rparr>;
          ss3 = put_string (put_double (put_string (put_double (put_string (put_double
                  (put_string ss2 ''{'') (x v)) '','') (y v)) '','') (z v)) ''}''
      in buffer ss3)"

section \<open>The demonstration program\<close>

text \<open>
  \<^verbatim>\<open>dis(gen)\<close> draws the next value of the generator. The generator is seeded from
  \<^verbatim>\<open>std::random_device\<close>, so its output is any sequence of integers (of 1 to 100): the
  model takes the sequence as a stream, and a draw reads its head.
\<close>

type_synonym gen = "int stream"

definition dis :: "gen \<Rightarrow> int \<times> gen" where
  "dis g = (shd g, stl g)"

text \<open>
  The three \<^verbatim>\<open>make_shared\<close> calls of the loop. The constructors take \<^verbatim>\<open>double\<close>
  parameters, so each drawn \<^verbatim>\<open>int\<close> is converted. The C++ standard leaves the order in
  which the arguments of a call are evaluated open; g++ evaluates them from the last
  to the first, and the model draws in that order: the first draw is the last
  argument.
\<close>

definition make_ellipse :: "gen \<Rightarrow> curve \<times> gen" where
  "make_ellipse g0 =
     (let (v4, g1) = dis g0; (v3, g2) = dis g1; (v2, g3) = dis g2; (v1, g4) = dis g3
      in (Ellipse (ellipse3d_xyab (double_of_int v1) (double_of_int v2)
                     (double_of_int v3) (double_of_int v4)), g4))"

definition make_circle :: "gen \<Rightarrow> curve \<times> gen" where
  "make_circle g0 =
     (let (v3, g1) = dis g0; (v2, g2) = dis g1; (v1, g3) = dis g2
      in (Circle (circle3d_xyr (double_of_int v1) (double_of_int v2) (double_of_int v3)), g3))"

definition make_helix :: "gen \<Rightarrow> curve \<times> gen" where
  "make_helix g0 =
     (let (v5, g1) = dis g0; (v4, g2) = dis g1; (v3, g3) = dis g2; (v2, g4) = dis g3;
          (v1, g5) = dis g4
      in (Helix (helix3d_xyzrs (double_of_int v1) (double_of_int v2) (double_of_int v3)
                   (double_of_int v4) (double_of_int v5)), g5))"

text \<open>The body of the generation loop: the \<^verbatim>\<open>switch (i % 3)\<close>.\<close>

definition make_curve :: "nat \<Rightarrow> gen \<Rightarrow> curve \<times> gen" where
  "make_curve i g =
     (if i mod 3 = 0 then make_ellipse g
      else if i mod 3 = 1 then make_circle g
      else make_helix g)"

text \<open>The loop \<^verbatim>\<open>for (size_t i = 0; i < 100; i++)\<close>, from the index \<open>i\<close> on.\<close>

function generate :: "nat \<Rightarrow> gen \<Rightarrow> curve list \<Rightarrow> curve list" where
  "generate i g curves =
     (if i < 100
      then (case make_curve i g of (c, g') \<Rightarrow> generate (i + 1) g' (curves @ [c]))
      else curves)"
  by pat_completeness auto
termination
  by (relation "measure (\<lambda>(i, g, curves). 100 - i)") auto

declare generate.simps [simp del]

text \<open>
  Lines 139 to 146: every curve is evaluated at \<^verbatim>\<open>M_PI_4\<close> (the literal
  0.78539816339744830962, the double \<open>884279719003555 / 2^50\<close>) and its point and its
  derivative are written to \<^verbatim>\<open>std::cout\<close> with \<^verbatim>\<open>operator<<\<close>. \<^verbatim>\<open>std::endl\<close> writes a
  newline; its flush is not modelled.
\<close>

definition M_PI_4 :: double where
  "M_PI_4 = Finite (884279719003555 / 2 ^ 50)"

definition endl :: "ostream \<Rightarrow> ostream" where
  "endl os = put_string os [CHR 0x0A]"

definition print_curve :: "cmath \<Rightarrow> ostream \<Rightarrow> curve \<Rightarrow> ostream" where
  "print_curve M os curve =
     (let point = calculate M curve M_PI_4;
          deriv = derivative M curve M_PI_4;
          os1 = endl (vector3d_out (put_string os ''Point: '') point);
          os2 = endl (vector3d_out (put_string os1 ''Derivative: '') deriv)
      in os2)"

fun print_curves :: "cmath \<Rightarrow> ostream \<Rightarrow> curve list \<Rightarrow> ostream" where
  "print_curves M os [] = os"
| "print_curves M os (curve # curves) = print_curves M (print_curve M os curve) curves"

text \<open>
  \<^verbatim>\<open>dynamic_cast<circle3d<double>*>\<close> gives the object when its dynamic type is
  \<^verbatim>\<open>circle3d\<close> and a null pointer otherwise.
\<close>

fun dynamic_cast_circle3d :: "curve \<Rightarrow> circle3d option" where
  "dynamic_cast_circle3d (Circle c) = Some c"
| "dynamic_cast_circle3d (Ellipse e) = None"
| "dynamic_cast_circle3d (Helix h) = None"

fun circleContainer :: "curve list \<Rightarrow> circle3d list" where
  "circleContainer [] = []"
| "circleContainer (curve # curves) =
     (case dynamic_cast_circle3d curve of
        Some circle \<Rightarrow> circle # circleContainer curves
      | None \<Rightarrow> circleContainer curves)"

text \<open>
  \<^verbatim>\<open>std::sort\<close> with the comparison \<^verbatim>\<open>a->a < b->a\<close>. The radii of \<open>main\<close> are converted
  integers, never a NaN, so the comparison is a strict weak order and the sort leaves
  the radii in ascending order. The order it leaves circles of the same radius in is
  not specified; the radii come out in one order only, the one an insertion sort
  gives. With a NaN among the radii the comparison is no strict weak order and the
  behaviour of \<^verbatim>\<open>std::sort\<close> is undefined: the model is not meant for that case.
\<close>

fun insort_radius :: "circle3d \<Rightarrow> circle3d list \<Rightarrow> circle3d list" where
  "insort_radius c [] = [c]"
| "insort_radius c (d # ds) =
     (if double_less (ellipse3d.a d) (ellipse3d.a c) then d # insort_radius c ds
      else c # d # ds)"

fun sort_radius :: "circle3d list \<Rightarrow> circle3d list" where
  "sort_radius [] = []"
| "sort_radius (c # cs) = insort_radius c (sort_radius cs)"

text \<open>
  \<^verbatim>\<open>front()\<close> and \<^verbatim>\<open>back()\<close> of a vector check nothing: on an empty vector they read
  out of bounds, which is undefined behaviour. The model marks that read.
\<close>

datatype fault = OutOfBoundsRead

definition vector_front :: "'a list \<Rightarrow> fault + 'a" where
  "vector_front xs = (case xs of [] \<Rightarrow> Inl OutOfBoundsRead | v # vs \<Rightarrow> Inr v)"

definition vector_back :: "'a list \<Rightarrow> fault + 'a" where
  "vector_back xs = (if xs = [] then Inl OutOfBoundsRead else Inr (last xs))"

text \<open>
  Lines 149 to 161: the circles of the collection are gathered and sorted by radius,
  and the radii of the first and of the last are printed.
\<close>

definition first_last :: "curve list \<Rightarrow> fault + (double \<times> double)" where
  "first_last curves =
     (let sorted = sort_radius (circleContainer curves) in
      case vector_front sorted of
        Inl e \<Rightarrow> Inl e
      | Inr f \<Rightarrow> (case vector_back sorted of
                   Inl e \<Rightarrow> Inl e
                 | Inr l \<Rightarrow> Inr (ellipse3d.a f, ellipse3d.a l)))"

text \<open>Whether the cast of line 152 succeeds.\<close>

definition is_circle :: "curve \<Rightarrow> bool" where
  "is_circle c = (dynamic_cast_circle3d c \<noteq> None)"

section \<open>Evaluation and negation\<close>

text \<open>The equations that evaluate the arithmetic on numerals.\<close>

lemmas eval_double = round_real_def round_double_def round_mag_def ulp_exp_def ilog_def
  pow2_def round_even_def compute_floorlog Let_def double_of_real_def double_of_int_def M_PI_def

text \<open>Negation commutes with rounding.\<close>

lemma sign_flip: "(r::real) \<noteq> 0 \<Longrightarrow> (\<not> 0 < r) = (r < 0)"
  by auto

lemma fneg_round_double: "fneg (round_double s m) = round_double (\<not> s) m"
  by (simp add: round_double_def Let_def)

lemma fneg_round_real: "fneg (round_real zs v) = round_real (\<not> zs) (- v)"
  by (cases "v < 0") (auto simp: round_real_def fneg_round_double not_less sign_flip)

lemma fmul_fneg: "fmul u (fneg v) = fneg (fmul u v)"
  by (cases u; cases v) (auto simp: fneg_round_real sign_flip)

lemma double_of_int_0: "double_of_int 0 = Finite 0"
  by (simp add: double_of_int_def double_of_real_def round_real_def)

section \<open>The evaluation formulas\<close>

text \<open>
  C1. For every origin \<open>(ox, oy, oz)\<close>, semi-axes \<open>ra\<close>, \<open>rb\<close> and angle \<open>\<theta>\<close>, the point
  of the ellipse is \<open>(ox + ra \<sqdot> cos \<theta>, oy + rb \<sqdot> sin \<theta>, oz)\<close> and its derivative is
  \<open>(- (ra \<sqdot> sin \<theta>), rb \<sqdot> cos \<theta>, 0)\<close>, in the arithmetic of doubles. The source writes the
  first component of the derivative \<open>ra \<sqdot> (- sin \<theta>)\<close>, which is the same double. Nothing
  is checked about \<open>ra\<close> and \<open>rb\<close>: both functions return a vector for every datum,
  zero and negative axes included. The constructor with an anchor in the plane gives
  the same with \<open>oz = 0\<close>.
\<close>

theorem ellipse3d_formulas:
  "calculate M (Ellipse (ellipse3d_xyzab ox oy oz ra rb)) \<theta> =
     vector3d_new (fadd ox (fmul ra (cos_d M \<theta>))) (fadd oy (fmul rb (sin_d M \<theta>))) oz
   \<and> derivative M (Ellipse (ellipse3d_xyzab ox oy oz ra rb)) \<theta> =
     vector3d_new (fneg (fmul ra (sin_d M \<theta>))) (fmul rb (cos_d M \<theta>)) (Finite 0)
   \<and> calculate M (Ellipse (ellipse3d_xyab ox oy ra rb)) \<theta> =
     vector3d_new (fadd ox (fmul ra (cos_d M \<theta>))) (fadd oy (fmul rb (sin_d M \<theta>))) (Finite 0)
   \<and> derivative M (Ellipse (ellipse3d_xyab ox oy ra rb)) \<theta> =
     vector3d_new (fneg (fmul ra (sin_d M \<theta>))) (fmul rb (cos_d M \<theta>)) (Finite 0)"
  by (simp add: ellipse3d_calculate_def ellipse3d_derivative_def ellipse3d_xyzab_def
      ellipse3d_xyab_def vector3d_new_def fmul_fneg double_of_int_0)

text \<open>
  C2. For every origin, semi-axes, pitch \<open>st\<close>, phase \<open>ph\<close> and angle \<open>\<theta>\<close>, the point of
  the helix is \<open>(ox + ra \<sqdot> cos \<theta>, oy + rb \<sqdot> sin \<theta>, oz + (ph + \<theta>) / (M_PI \<sqdot> 2) \<sqdot> st)\<close> and
  its derivative is \<open>(- (ra \<sqdot> sin \<theta>), rb \<sqdot> cos \<theta>, st / (M_PI \<sqdot> 2))\<close>. The third component
  of the derivative is the double \<open>st / (M_PI \<sqdot> 2)\<close> itself, the same at every angle
  and for every library.
\<close>

theorem helix3d_formulas:
  "calculate M (Helix (helix3d_full ox oy oz ra rb st ph)) \<theta> =
     vector3d_new (fadd ox (fmul ra (cos_d M \<theta>))) (fadd oy (fmul rb (sin_d M \<theta>)))
       (fadd oz (fmul (fdiv (fadd ph \<theta>) (fmul M_PI (double_of_int 2))) st))
   \<and> derivative M (Helix (helix3d_full ox oy oz ra rb st ph)) \<theta> =
     vector3d_new (fneg (fmul ra (sin_d M \<theta>))) (fmul rb (cos_d M \<theta>))
       (fdiv st (fmul M_PI (double_of_int 2)))
   \<and> z (derivative M (Helix (helix3d_full ox oy oz ra rb st ph)) \<theta>) =
     fdiv st (fmul M_PI (double_of_int 2))
   \<and> z (derivative M (Helix (helix3d_full ox oy oz ra rb st ph)) \<theta>) =
     z (derivative M' (Helix (helix3d_full ox oy oz ra rb st ph)) \<theta>')"
  by (simp add: helix3d_calculate_def helix3d_derivative_def helix3d_full_def
      vector3d_new_def fmul_fneg)

text \<open>
  C3. For every ellipse and every angle, the third component of the point is the third
  component of the origin, the very same double.
\<close>

theorem ellipse3d_planar:
  "z (calculate M (Ellipse e) \<theta>) = z (position e)"
  by (simp add: ellipse3d_calculate_def vector3d_new_def)

text \<open>
  C4. A circle of radius \<open>r\<close> is the ellipse with both axes \<open>r\<close> at the same anchor: the
  constructors build the same object, with the anchor given in space or in the plane,
  and \<open>calculate\<close> and \<open>derivative\<close> of the circle are those of the ellipse at every
  angle.
\<close>

theorem circle3d_is_ellipse3d:
  "circle3d_xyzr ox oy oz r = ellipse3d_xyzab ox oy oz r r
   \<and> circle3d_xyr ox oy r = ellipse3d_xyab ox oy r r
   \<and> ellipse3d.a (circle3d_xyzr ox oy oz r) = r
   \<and> ellipse3d.b (circle3d_xyzr ox oy oz r) = r
   \<and> calculate M (Circle (circle3d_xyzr ox oy oz r)) \<theta> =
       calculate M (Ellipse (ellipse3d_xyzab ox oy oz r r)) \<theta>
   \<and> derivative M (Circle (circle3d_xyzr ox oy oz r)) \<theta> =
       derivative M (Ellipse (ellipse3d_xyzab ox oy oz r r)) \<theta>
   \<and> calculate M (Circle (circle3d_xyr ox oy r)) \<theta> =
       calculate M (Ellipse (ellipse3d_xyab ox oy r r)) \<theta>
   \<and> derivative M (Circle (circle3d_xyr ox oy r)) \<theta> =
       derivative M (Ellipse (ellipse3d_xyab ox oy r r)) \<theta>"
  by (simp add: circle3d_xyzr_def circle3d_xyr_def ellipse3d_xyab_def ellipse3d_xyzab_def)

section \<open>The collection of the demonstration program\<close>

lemma is_circle_make_curve: "is_circle (fst (make_curve i g)) = (i mod 3 = 1)"
  by (simp add: make_curve_def make_ellipse_def make_circle_def make_helix_def is_circle_def
      split: prod.splits)

text \<open>The loop invariant: the curve pushed at index \<open>j\<close> is a circle exactly when \<open>j mod 3 = 1\<close>.\<close>

lemma generate_kinds:
  "map is_circle (generate i g curves) =
     map is_circle curves @ map (\<lambda>j. j mod 3 = 1) [i..<100]"
proof (induction i g curves rule: generate.induct)
  case (1 i g curves)
  show ?case
  proof (cases "i < 100")
    case True
    obtain c g' where cg: "make_curve i g = (c, g')" by (cases "make_curve i g")
    have kc: "is_circle c = (i mod 3 = 1)" using is_circle_make_curve[of i g] cg by simp
    have "map is_circle (generate i g curves) = map is_circle (generate (i + 1) g' (curves @ [c]))"
      using True cg by (subst generate.simps) simp
    also have "\<dots> = map is_circle (curves @ [c]) @ map (\<lambda>j. j mod 3 = 1) [i + 1..<100]"
      using "1.IH"[OF True cg[symmetric]] by simp
    also have "\<dots> = map is_circle curves @ map (\<lambda>j. j mod 3 = 1) [i..<100]"
      using True kc by (simp add: upt_conv_Cons)
    finally show ?thesis .
  next
    case False
    then show ?thesis by (subst generate.simps) simp
  qed
qed

lemma length_circleContainer:
  "length (circleContainer cs) = length (filter id (map is_circle cs))"
  by (induction cs) (auto simp: is_circle_def split: option.splits)

lemma length_insort_radius: "length (insort_radius c ds) = Suc (length ds)"
  by (induction ds) auto

lemma length_sort_radius: "length (sort_radius cs) = length cs"
  by (induction cs) (auto simp: length_insort_radius)

lemma sort_radius_Nil_iff: "sort_radius cs = [] \<longleftrightarrow> cs = []"
  using length_sort_radius[of cs] by (metis length_0_conv)

lemma circles_of_100: "length (filter id (map (\<lambda>j. j mod 3 = 1) [0..<100])) = (33::nat)"
  by code_simp

lemma first_last_Inr: "(\<exists>p. first_last curves = Inr p) = (circleContainer curves \<noteq> [])"
  using sort_radius_Nil_iff[of "circleContainer curves"]
  by (auto simp: first_last_def vector_front_def vector_back_def Let_def split: list.splits)

text \<open>
  C10. Whatever the generator yields, the collection built by \<open>main\<close> has 100 curves,
  the curve at index \<open>i\<close> is a circle exactly when \<open>i mod 3 = 1\<close>, the container of the
  circles has 33 elements, it is not empty after sorting, and the access to its first
  and last element does not read out of bounds.
\<close>

theorem main_circles_never_empty:
  "length (generate 0 g []) = 100
   \<and> (\<forall>i<100. is_circle (generate 0 g [] ! i) = (i mod 3 = 1))
   \<and> length (circleContainer (generate 0 g [])) = 33
   \<and> sort_radius (circleContainer (generate 0 g [])) \<noteq> []
   \<and> (\<exists>p. first_last (generate 0 g []) = Inr p)"
proof -
  have kinds: "map is_circle (generate 0 g []) = map (\<lambda>j. j mod 3 = 1) [0..<100]"
    using generate_kinds[of 0 g "[]"] by simp
  have len: "length (generate 0 g []) = 100"
    using arg_cong[OF kinds, of length] by simp
  have nth: "is_circle (generate 0 g [] ! i) = (i mod 3 = 1)" if "i < 100" for i
  proof -
    have "is_circle (generate 0 g [] ! i) = map is_circle (generate 0 g []) ! i"
      using that len by simp
    also have "\<dots> = (i mod 3 = 1)"
      using that by (simp add: kinds)
    finally show ?thesis .
  qed
  have cnt: "length (circleContainer (generate 0 g [])) = 33"
    by (simp only: length_circleContainer kinds circles_of_100)
  then have ne: "circleContainer (generate 0 g []) \<noteq> []"
    by auto
  have "sort_radius (circleContainer (generate 0 g [])) \<noteq> []"
    using ne by (simp add: sort_radius_Nil_iff)
  moreover have "\<exists>p. first_last (generate 0 g []) = Inr p"
    using ne first_last_Inr[of "generate 0 g []"] by blast
  ultimately show ?thesis
    using len nth cnt by blast
qed

text \<open>
  A run of the model: with the generator that yields 1, 2, 3, 4, 5 over and over, the
  radii of the circles range over 1 to 5, and the first and the last of the sorted
  container have the radii 1 and 5.
\<close>

lemma double_of_int_digits:
  "double_of_int 1 = Finite 1" "double_of_int 2 = Finite 2" "double_of_int 3 = Finite 3"
  "double_of_int 4 = Finite 4" "double_of_int 5 = Finite 5"
  by (simp_all add: eval_double)

lemma dis_cycle: "dis (cycle (v # vs)) = (v, cycle (vs @ [v]))"
  by (simp add: dis_def)

lemma first_last_run:
  "first_last (generate 0 (cycle [1, 2, 3, 4, 5]) []) = Inr (Finite 1, Finite 5)"
  by (simp add: generate.simps make_curve_def make_ellipse_def make_circle_def make_helix_def
      dis_cycle double_of_int_digits first_last_def vector_front_def vector_back_def
      circle3d_xyr_def circle3d_xyzr_def ellipse3d_xyzab_def double_less_def)

theorem main_circles_never_empty_witness:
  "length (generate 0 (cycle [1, 2, 3, 4, 5]) []) = 100
   \<and> is_circle (generate 0 (cycle [1, 2, 3, 4, 5]) [] ! 1)
   \<and> \<not> is_circle (generate 0 (cycle [1, 2, 3, 4, 5]) [] ! 2)
   \<and> length (circleContainer (generate 0 (cycle [1, 2, 3, 4, 5]) [])) = 33
   \<and> first_last (generate 0 (cycle [1, 2, 3, 4, 5]) []) = Inr (Finite 1, Finite 5)"
proof -
  note m = main_circles_never_empty[of "cycle [1, 2, 3, 4, 5]"]
  have "is_circle (generate 0 (cycle [1, 2, 3, 4, 5]) [] ! 1) = (1 mod 3 = (1::nat))"
    using m by simp
  moreover have "is_circle (generate 0 (cycle [1, 2, 3, 4, 5]) [] ! 2) = (2 mod 3 = (1::nat))"
    using m by simp
  ultimately show ?thesis
    using m first_last_run by auto
qed

section \<open>Rounding is monotone\<close>

lemma pow2_powi: "pow2 k = 2 powi k"
  by (simp add: pow2_def power_int_def inverse_eq_divide power_one_over)

lemma pow2_pos: "0 < pow2 k"
  by (simp add: pow2_powi)

lemma pow2_add: "pow2 (i + j) = pow2 i * pow2 j"
  by (simp add: pow2_powi power_int_add)

lemma pow2_mono: "i \<le> j \<Longrightarrow> pow2 i \<le> pow2 j"
  by (simp add: pow2_powi power_int_increasing)

lemma pow2_less_D: "pow2 i < pow2 j \<Longrightarrow> i < j"
  using pow2_mono[of j i] by (cases "i < j") auto

lemma pow2_nat: "pow2 (int n) = 2 ^ n"
  by (simp add: pow2_def)

lemma pow2_neg_nat: "pow2 (- int n) = 1 / 2 ^ n"
  by (simp add: pow2_powi power_int_minus_divide)

text \<open>\<open>ilog 2 m\<close> is the binade of \<open>m\<close>.\<close>

lemma ilog2_bounds:
  assumes "0 < m"
  shows "pow2 (ilog 2 m) \<le> m \<and> m < pow2 (ilog 2 m + 1)"
proof (cases "1 \<le> m")
  case True
  define n where "n = nat \<lfloor>m\<rfloor>"
  have n1: "0 < n" using True by (simp add: n_def)
  have nm: "real n \<le> m" "m < real n + 1" using True by (simp_all add: n_def)
  from floorlog_bounds[OF n1, of 2]
  have b: "2 ^ (floorlog 2 n - 1) \<le> n" "n < 2 ^ floorlog 2 n" by simp_all
  have fl: "0 < floorlog 2 n" using n1 by (simp add: floorlog_def)
  have e: "ilog 2 m = int (floorlog 2 n - 1)" using True fl by (simp add: ilog_def n_def)
  have e1: "ilog 2 m + 1 = int (floorlog 2 n)" using e fl by simp
  have "pow2 (ilog 2 m) \<le> real n"
    unfolding e pow2_nat using b(1) by (metis of_nat_le_iff of_nat_numeral of_nat_power)
  moreover have "real n + 1 \<le> pow2 (ilog 2 m + 1)"
  proof -
    have "n + 1 \<le> 2 ^ floorlog 2 n" using b(2) by simp
    then have "real (n + 1) \<le> real (2 ^ floorlog 2 n)" by (rule of_nat_mono)
    then show ?thesis unfolding e1 pow2_nat by simp
  qed
  ultimately show ?thesis using nm by linarith
next
  case False
  define N where "N = nat (\<lceil>1 / m\<rceil> - 1)"
  have inv: "1 < 1 / m" using False assms by simp
  have c2: "2 \<le> \<lceil>1 / m\<rceil>" using inv by linarith
  have N1: "0 < N" using c2 by (simp add: N_def)
  have "0 \<le> \<lceil>1 / m\<rceil> - 1" using c2 by linarith
  then have iN: "int N = \<lceil>1 / m\<rceil> - 1" unfolding N_def by (rule nat_0_le)
  have rN: "real N = of_int \<lceil>1 / m\<rceil> - 1"
    using arg_cong[OF iN, of real_of_int] by simp
  have Nm: "real N < 1 / m" "1 / m \<le> real N + 1"
    using ceiling_correct[of "1 / m"] unfolding rN by linarith+
  from floorlog_bounds[OF N1, of 2]
  have b: "2 ^ (floorlog 2 N - 1) \<le> N" "N < 2 ^ floorlog 2 N" by simp_all
  define k where "k = floorlog 2 N"
  have k1: "0 < k" using N1 by (simp add: floorlog_def k_def)
  have e: "ilog 2 m = - int k" using False by (simp add: ilog_def N_def k_def)
  have e1: "ilog 2 m + 1 = - int (k - 1)" using e k1 by simp
  have "real N + 1 \<le> 2 ^ k"
  proof -
    have "N + 1 \<le> 2 ^ k" using b(2) by (simp add: k_def)
    then have "real (N + 1) \<le> real (2 ^ k)" by (rule of_nat_mono)
    then show ?thesis by simp
  qed
  then have "1 / m \<le> 2 ^ k" using Nm by linarith
  then have lo: "1 / 2 ^ k \<le> m" using assms by (simp add: field_simps)
  have "(2::real) ^ (k - 1) \<le> real N"
    using b(1) unfolding k_def by (metis of_nat_le_iff of_nat_numeral of_nat_power)
  then have "2 ^ (k - 1) < 1 / m" using Nm by linarith
  then have hi: "m < 1 / 2 ^ (k - 1)" using assms by (simp add: field_simps)
  show ?thesis unfolding e1 unfolding e pow2_neg_nat using lo hi by simp
qed

lemma ilog2_mono:
  assumes "0 < m" "m \<le> m'"
  shows "ilog 2 m \<le> ilog 2 m'"
proof -
  have "pow2 (ilog 2 m) \<le> m" using ilog2_bounds[OF assms(1)] by simp
  moreover have "m' < pow2 (ilog 2 m' + 1)" using ilog2_bounds[of m'] assms by simp
  ultimately have "pow2 (ilog 2 m) < pow2 (ilog 2 m' + 1)" using assms(2) by linarith
  then have "ilog 2 m < ilog 2 m' + 1" by (rule pow2_less_D)
  then show ?thesis by simp
qed

lemma round_even_of_int: "round_even (of_int n) = n"
  by (simp add: round_even_def)

lemma round_even_bounds: "of_int \<lfloor>v\<rfloor> \<le> (of_int (round_even v) :: real) \<and> round_even v \<le> \<lfloor>v\<rfloor> + 1"
  by (simp add: round_even_def Let_def)

lemma round_even_mono:
  assumes "u \<le> v"
  shows "round_even u \<le> round_even v"
proof (cases "\<lfloor>u\<rfloor> = \<lfloor>v\<rfloor>")
  case True
  have "u - of_int \<lfloor>v\<rfloor> \<le> v - of_int \<lfloor>v\<rfloor>" using assms by simp
  then show ?thesis unfolding round_even_def Let_def True by auto
next
  case False
  then have "\<lfloor>u\<rfloor> < \<lfloor>v\<rfloor>" using floor_mono[OF assms] by linarith
  then have "round_even u \<le> \<lfloor>v\<rfloor>" using round_even_bounds[of u] by linarith
  moreover have "\<lfloor>v\<rfloor> \<le> round_even v" using round_even_bounds[of v] by simp
  ultimately show ?thesis by linarith
qed

lemma ulp_exp_mono: "0 < m \<Longrightarrow> m \<le> m' \<Longrightarrow> ulp_exp m \<le> ulp_exp m'"
  using ilog2_mono[of m m'] by (simp add: ulp_exp_def)

lemma round_mag_nonneg: "0 \<le> round_mag m"
proof (cases "m \<le> 0")
  case True then show ?thesis by (simp add: round_mag_def)
next
  case False
  then have "0 \<le> m / pow2 (ulp_exp m)" using pow2_pos[of "ulp_exp m"] by simp
  then have "round_even 0 \<le> round_even (m / pow2 (ulp_exp m))" by (rule round_even_mono)
  then have "0 \<le> round_even (m / pow2 (ulp_exp m))" using round_even_of_int[of 0] by simp
  then show ?thesis using False pow2_pos[of "ulp_exp m"] by (simp add: round_mag_def)
qed

text \<open>Within the binade: the rounded magnitude stays between the ends of the binade.\<close>

lemma round_mag_upper:
  assumes "0 < m"
  shows "round_mag m \<le> pow2 (ulp_exp m + 53)"
proof -
  let ?u = "pow2 (ulp_exp m)"
  have "m < pow2 (ilog 2 m + 1)" using ilog2_bounds[OF assms] by simp
  also have "\<dots> \<le> pow2 (ulp_exp m + 53)" by (rule pow2_mono) (simp add: ulp_exp_def)
  finally have "m / ?u \<le> pow2 53" using pow2_pos[of "ulp_exp m"] pow2_add[of "ulp_exp m" 53]
    by (simp add: field_simps)
  then have "m / ?u \<le> of_int (2 ^ 53)" by (simp add: pow2_def)
  then have "round_even (m / ?u) \<le> round_even (of_int (2 ^ 53))" by (rule round_even_mono)
  then have "round_even (m / ?u) \<le> 2 ^ 53" unfolding round_even_of_int .
  then have "(of_int (round_even (m / ?u)) :: real) \<le> of_int (2 ^ 53)" by (rule of_int_le_iff[THEN iffD2])
  then have "of_int (round_even (m / ?u)) * ?u \<le> pow2 53 * ?u"
    using pow2_pos[of "ulp_exp m"] by (simp add: pow2_def)
  then show ?thesis using assms by (simp add: round_mag_def pow2_add mult.commute)
qed

lemma round_mag_lower:
  assumes "0 < m" "- 1022 \<le> ilog 2 m"
  shows "pow2 (ilog 2 m) \<le> round_mag m"
proof -
  let ?u = "pow2 (ulp_exp m)"
  have ue: "ulp_exp m = ilog 2 m - 52" using assms(2) by (simp add: ulp_exp_def)
  have "pow2 (ulp_exp m + 52) \<le> m" using ilog2_bounds[OF assms(1)] by (simp add: ue)
  then have "pow2 52 \<le> m / ?u" using pow2_pos[of "ulp_exp m"] pow2_add[of "ulp_exp m" 52]
    by (simp add: field_simps)
  then have "of_int (2 ^ 52) \<le> m / ?u" by (simp add: pow2_def)
  then have "round_even (of_int (2 ^ 52)) \<le> round_even (m / ?u)" by (rule round_even_mono)
  then have "2 ^ 52 \<le> round_even (m / ?u)" unfolding round_even_of_int .
  then have "(of_int (2 ^ 52) :: real) \<le> of_int (round_even (m / ?u))" by (rule of_int_le_iff[THEN iffD2])
  then have "pow2 52 * ?u \<le> of_int (round_even (m / ?u)) * ?u"
    using pow2_pos[of "ulp_exp m"] by (simp add: pow2_def)
  moreover have "pow2 52 * ?u = pow2 (ilog 2 m)" using pow2_add[of 52 "ulp_exp m"] by (simp add: ue)
  ultimately show ?thesis using assms by (simp add: round_mag_def)
qed

lemma round_mag_mono:
  assumes "m \<le> m'"
  shows "round_mag m \<le> round_mag m'"
proof (cases "m \<le> 0")
  case True
  then show ?thesis using round_mag_nonneg[of m'] by (simp add: round_mag_def)
next
  case False
  then have pos: "0 < m" "0 < m'" using assms by simp_all
  have le: "ulp_exp m \<le> ulp_exp m'" using ulp_exp_mono[OF pos(1) assms] .
  show ?thesis
  proof (cases "ulp_exp m = ulp_exp m'")
    case True
    let ?u = "pow2 (ulp_exp m')"
    have "m / ?u \<le> m' / ?u" using assms pow2_pos[of "ulp_exp m'"] by (simp add: divide_right_mono)
    then have "round_even (m / ?u) \<le> round_even (m' / ?u)" by (rule round_even_mono)
    then have "(of_int (round_even (m / ?u)) :: real) \<le> of_int (round_even (m' / ?u))" by simp
    then have "of_int (round_even (m / ?u)) * ?u \<le> of_int (round_even (m' / ?u)) * ?u"
      using pow2_pos[of "ulp_exp m'"] by (simp add: mult_right_mono)
    then show ?thesis using pos True by (simp add: round_mag_def)
  next
    case False
    then have lt: "ulp_exp m < ulp_exp m'" using le by simp
    then have big: "- 1022 \<le> ilog 2 m'" "ulp_exp m' = ilog 2 m' - 52"
      by (auto simp: ulp_exp_def max_def split: if_splits)
    have "round_mag m \<le> pow2 (ulp_exp m + 53)" by (rule round_mag_upper[OF pos(1)])
    also have "\<dots> \<le> pow2 (ilog 2 m')" by (rule pow2_mono) (use lt big in simp)
    also have "\<dots> \<le> round_mag m'" by (rule round_mag_lower[OF pos(2) big(1)])
    finally show ?thesis .
  qed
qed

lemma round_double_cases:
  "round_double s m = (if pow2 1024 \<le> round_mag m then Infinity s
     else if round_mag m = 0 then (if s then NegZero else Finite 0)
     else Finite (if s then - round_mag m else round_mag m))"
  by (simp add: round_double_def Let_def)

lemma ord_key_round_double:
  "ord_key (round_double s m) =
     Some (if pow2 1024 \<le> round_mag m then (if s then - 1 else 1, 0)
           else (0, if s then - round_mag m else round_mag m))"
  by (simp add: round_double_cases)

lemma ord_key_round_real:
  "ord_key (round_real zs v) =
     Some (if pow2 1024 \<le> round_mag \<bar>v\<bar> then (if v < 0 then - 1 else 1, 0)
           else (0, if v < 0 then - round_mag \<bar>v\<bar> else round_mag \<bar>v\<bar>))"
proof (cases "v = 0")
  case True
  have "round_mag 0 = 0" by (simp add: round_mag_def)
  then show ?thesis using True pow2_pos[of 1024] by (simp add: round_real_def)
next
  case False
  then show ?thesis by (simp add: round_real_def ord_key_round_double)
qed

lemma double_le_round_real:
  assumes "v \<le> v'"
  shows "double_le (round_real zs v) (round_real zs' v')"
proof -
  have n: "0 \<le> round_mag \<bar>v\<bar>" "0 \<le> round_mag \<bar>v'\<bar>" by (rule round_mag_nonneg)+
  have p: "0 < pow2 1024" by (rule pow2_pos)
  consider "v < 0" "v' < 0" | "v < 0" "0 \<le> v'" | "0 \<le> v" "0 \<le> v'"
    using assms by linarith
  then show ?thesis
  proof cases
    case 1
    then have "round_mag \<bar>v'\<bar> \<le> round_mag \<bar>v\<bar>" using assms by (intro round_mag_mono) simp
    then show ?thesis using 1 by (auto simp: double_le_def ord_key_round_real)
  next
    case 2
    then show ?thesis using n p by (auto simp: double_le_def ord_key_round_real)
  next
    case 3
    then have "round_mag \<bar>v\<bar> \<le> round_mag \<bar>v'\<bar>" using assms by (intro round_mag_mono) simp
    then show ?thesis using 3 by (auto simp: double_le_def ord_key_round_real)
  qed
qed

lemma is_finite_ord_key: "is_finite u \<Longrightarrow> ord_key u = Some (0, dval u)"
  by (cases u) simp_all

lemma double_le_finite: "is_finite u \<Longrightarrow> is_finite v \<Longrightarrow> double_le u v = (dval u \<le> dval v)"
  by (simp add: double_le_def is_finite_ord_key)

lemma fadd_finite:
  "is_finite u \<Longrightarrow> is_finite v \<Longrightarrow> fadd u v = round_real (dsign u \<and> dsign v) (dval u + dval v)"
  by (cases u; cases v) simp_all

lemma fmul_finite:
  "is_finite u \<Longrightarrow> is_finite v \<Longrightarrow> fmul u v = round_real (dsign u \<noteq> dsign v) (dval u * dval v)"
  by (cases u; cases v) simp_all

lemma fdiv_finite:
  "is_finite u \<Longrightarrow> is_finite v \<Longrightarrow> dval v \<noteq> 0 \<Longrightarrow>
     fdiv u v = round_real (dsign u \<noteq> dsign v) (dval u / dval v)"
  by (cases u; cases v) simp_all

lemma is_finite_round_real:
  "is_finite (round_real zs v) = (round_mag \<bar>v\<bar> < pow2 1024)"
proof (cases "v = 0")
  case True
  have "round_mag 0 = 0" by (simp add: round_mag_def)
  then show ?thesis using True pow2_pos[of 1024] by (simp add: round_real_def)
next
  case False
  then show ?thesis by (auto simp: round_real_def round_double_cases)
qed

lemma dval_round_real_bound:
  "is_finite (round_real zs v) \<Longrightarrow> \<bar>dval (round_real zs v)\<bar> < pow2 1024"
  using round_mag_nonneg[of "\<bar>v\<bar>"] pow2_pos[of 1024]
  by (auto simp: round_real_def round_double_cases split: if_splits)

lemma round_mag_below:
  assumes "m < pow2 1023"
  shows "round_mag m < pow2 1024"
proof (cases "0 < m")
  case False
  then show ?thesis using pow2_pos[of 1024] by (simp add: round_mag_def)
next
  case True
  have "pow2 (ilog 2 m) < pow2 1023" using ilog2_bounds[OF True] assms by linarith
  then have "ilog 2 m < 1023" by (rule pow2_less_D)
  then have "ulp_exp m + 53 \<le> 1023" by (simp add: ulp_exp_def)
  then have "pow2 (ulp_exp m + 53) \<le> pow2 1023" by (rule pow2_mono)
  moreover have "pow2 1023 < pow2 1024" by (simp add: pow2_def)
  ultimately show ?thesis using round_mag_upper[OF True] by linarith
qed

lemma double_le_not_NaN: "double_le u v \<Longrightarrow> u \<noteq> NaN \<and> v \<noteq> NaN"
  by (cases u; cases v) (simp_all add: double_le_def)

lemma fadd_mono_right:
  assumes "is_finite u" "double_le v v'"
  shows "double_le (fadd u v) (fadd u v')"
proof -
  have nn: "v \<noteq> NaN" "v' \<noteq> NaN" using double_le_not_NaN[OF assms(2)] by simp_all
  show ?thesis
  proof (cases "is_finite v \<and> is_finite v'")
    case True
    then have "dval v \<le> dval v'" using assms(2) by (simp add: double_le_finite)
    then show ?thesis using True assms(1) by (simp add: fadd_finite double_le_round_real)
  next
    case False
    show ?thesis
      using False assms nn
      by (cases u; cases v; cases v')
         (auto simp: double_le_def ord_key_round_real round_mag_nonneg split: if_splits)
  qed
qed

section \<open>The height of the helix\<close>

lemma double_of_int_2: "double_of_int 2 = Finite 2"
  by (simp add: eval_double)

lemma two_pi: "fmul M_PI (double_of_int 2) = Finite (884279719003555 / 2 ^ 47)"
  by (simp add: eval_double)

lemma fmul_mono_left:
  assumes "is_finite u" "is_finite u'" "is_finite v" "dval u \<le> dval u'" "0 \<le> dval v"
  shows "double_le (fmul u v) (fmul u' v)"
  using assms by (simp add: fmul_finite double_le_round_real mult_right_mono)

lemma helix3d_z:
  "z (calculate M (Helix (helix3d_full ox oy oz ra rb st ph)) \<theta>) =
     fadd oz (fmul (fdiv (fadd ph \<theta>) (fmul M_PI (double_of_int 2))) st)"
  by (simp add: helix3d_calculate_def helix3d_full_def vector3d_new_def)

lemma turns_finite:
  assumes "is_finite s"  "\<bar>dval s\<bar> < pow2 1024"
  shows "is_finite (fdiv s (fmul M_PI (double_of_int 2)))"
    and "fdiv s (fmul M_PI (double_of_int 2)) =
           round_real (dsign s) (dval s / (884279719003555 / 2 ^ 47))"
proof -
  let ?c = "884279719003555 / 2 ^ 47 :: real"
  show eq: "fdiv s (fmul M_PI (double_of_int 2)) = round_real (dsign s) (dval s / ?c)"
    using assms(1) by (simp add: two_pi fdiv_finite)
  have "\<bar>dval s / ?c\<bar> = \<bar>dval s\<bar> / ?c" by simp
  also have "\<dots> \<le> \<bar>dval s\<bar> / 2" by (intro divide_left_mono) simp_all
  also have "\<dots> < pow2 1024 / 2" using assms(2) by simp
  also have "\<dots> = pow2 1023" by (simp add: pow2_def)
  finally have "round_mag \<bar>dval s / ?c\<bar> < pow2 1024" by (rule round_mag_below)
  then show "is_finite (fdiv s (fmul M_PI (double_of_int 2)))"
    unfolding eq by (simp add: is_finite_round_real)
qed

text \<open>
  C5, amended. For finite parameters with a pitch \<open>st \<ge> 0\<close>, and angles \<open>\<theta> \<le> \<theta>'\<close> whose
  sums with the phase do not overflow, the third component of the point at \<open>\<theta>\<close> is
  at most the one at \<open>\<theta>'\<close>: the height never decreases. It need not increase, since
  an advance below half a unit in the last place of the origin's height is rounded
  away.
\<close>

theorem helix3d_z_monotone:
  assumes fin: "is_finite oz" "is_finite st" "is_finite ph" "is_finite \<theta>" "is_finite \<theta>'"
    and st: "double_le (Finite 0) st"
    and le: "double_le \<theta> \<theta>'"
    and sums: "is_finite (fadd ph \<theta>)" "is_finite (fadd ph \<theta>')"
  shows "double_le (z (calculate M (Helix (helix3d_full ox oy oz ra rb st ph)) \<theta>))
                   (z (calculate M (Helix (helix3d_full ox oy oz ra rb st ph)) \<theta>'))"
proof -
  let ?c = "fmul M_PI (double_of_int 2)"
  let ?cv = "884279719003555 / 2 ^ 47 :: real"
  have st0: "0 \<le> dval st" using st fin(2) by (simp add: double_le_finite)
  have ang: "dval \<theta> \<le> dval \<theta>'" using le fin by (simp add: double_le_finite)
  have s_eq: "fadd ph \<theta> = round_real (dsign ph \<and> dsign \<theta>) (dval ph + dval \<theta>)"
    "fadd ph \<theta>' = round_real (dsign ph \<and> dsign \<theta>') (dval ph + dval \<theta>')"
    using fin by (simp_all add: fadd_finite)
  have "double_le (fadd ph \<theta>) (fadd ph \<theta>')"
    unfolding s_eq using ang by (intro double_le_round_real) simp
  then have s_le: "dval (fadd ph \<theta>) \<le> dval (fadd ph \<theta>')"
    using sums by (simp add: double_le_finite)
  have s_b: "\<bar>dval (fadd ph \<theta>)\<bar> < pow2 1024" "\<bar>dval (fadd ph \<theta>')\<bar> < pow2 1024"
    using sums dval_round_real_bound unfolding s_eq by blast+
  note d1 = turns_finite[OF sums(1) s_b(1)]
  note d2 = turns_finite[OF sums(2) s_b(2)]
  have "double_le (fdiv (fadd ph \<theta>) ?c) (fdiv (fadd ph \<theta>') ?c)"
    unfolding d1(2) d2(2) using s_le by (intro double_le_round_real) (simp add: divide_right_mono)
  then have d_le: "dval (fdiv (fadd ph \<theta>) ?c) \<le> dval (fdiv (fadd ph \<theta>') ?c)"
    using d1(1) d2(1) by (simp add: double_le_finite)
  have "double_le (fmul (fdiv (fadd ph \<theta>) ?c) st) (fmul (fdiv (fadd ph \<theta>') ?c) st)"
    by (rule fmul_mono_left[OF d1(1) d2(1) fin(2) d_le st0])
  then have "double_le (fadd oz (fmul (fdiv (fadd ph \<theta>) ?c) st))
                       (fadd oz (fmul (fdiv (fadd ph \<theta>') ?c) st))"
    by (rule fadd_mono_right[OF fin(1)])
  then show ?thesis by (simp only: helix3d_z)
qed

lemma helix3d_xyzrs_full: "helix3d_xyzrs px py pz r st = helix3d_full px py pz r r st (Finite 0)"
  by (simp add: helix3d_xyzrs_def double_of_int_0)

text \<open>
  C5 as the claim states it fails. On the helix at height \<open>2^54\<close> with pitch 1 the
  angles 0 and \<open>M_PI \<sqdot> 2\<close> give the same third component: the advance of one pitch is
  below half a unit in the last place of \<open>2^54\<close>, and the sum rounds back to \<open>2^54\<close>.
\<close>

theorem helix3d_z_not_strict_counterexample:
  "double_less (Finite 0) (step (helix3d_xyzrs (Finite 0) (Finite 0) (Finite (2 ^ 54)) (Finite 1) (Finite 1)))
   \<and> double_less (Finite 0) (fmul M_PI (double_of_int 2))
   \<and> z (calculate correctly_rounded
          (Helix (helix3d_xyzrs (Finite 0) (Finite 0) (Finite (2 ^ 54)) (Finite 1) (Finite 1)))
          (Finite 0)) = Finite (2 ^ 54)
   \<and> z (calculate correctly_rounded
          (Helix (helix3d_xyzrs (Finite 0) (Finite 0) (Finite (2 ^ 54)) (Finite 1) (Finite 1)))
          (fmul M_PI (double_of_int 2))) = Finite (2 ^ 54)
   \<and> \<not> double_less
        (z (calculate correctly_rounded
          (Helix (helix3d_xyzrs (Finite 0) (Finite 0) (Finite (2 ^ 54)) (Finite 1) (Finite 1)))
          (Finite 0)))
        (z (calculate correctly_rounded
          (Helix (helix3d_xyzrs (Finite 0) (Finite 0) (Finite (2 ^ 54)) (Finite 1) (Finite 1)))
          (fmul M_PI (double_of_int 2))))
   \<and> is_double (Finite (2 ^ 54)) \<and> is_double (Finite 1) \<and> is_double (fmul M_PI (double_of_int 2))"
proof -
  have st: "step (helix3d_xyzrs (Finite 0) (Finite 0) (Finite (2 ^ 54)) (Finite 1) (Finite 1)) = Finite 1"
    by (simp add: helix3d_xyzrs_full helix3d_full_def)
  have z0: "z (calculate correctly_rounded
          (Helix (helix3d_xyzrs (Finite 0) (Finite 0) (Finite (2 ^ 54)) (Finite 1) (Finite 1)))
          (Finite 0)) = Finite (2 ^ 54)"
    unfolding helix3d_xyzrs_full helix3d_z two_pi by (simp add: eval_double)
  have z1: "z (calculate correctly_rounded
          (Helix (helix3d_xyzrs (Finite 0) (Finite 0) (Finite (2 ^ 54)) (Finite 1) (Finite 1)))
          (fmul M_PI (double_of_int 2))) = Finite (2 ^ 54)"
    unfolding helix3d_xyzrs_full helix3d_z two_pi by (simp add: eval_double)
  have d: "is_double (Finite (2 ^ 54))" "is_double (Finite 1)" "is_double (fmul M_PI (double_of_int 2))"
    unfolding two_pi by (simp_all add: eval_double)
  show ?thesis
    unfolding z0 z1 st using d by (simp add: double_less_def two_pi)
qed

theorem helix3d_z_monotone_witness:
  "double_le
     (z (calculate correctly_rounded
          (Helix (helix3d_full (Finite 0) (Finite 0) (Finite 3) (Finite 1) (Finite 1) (Finite 1) (Finite 0)))
          (Finite 0)))
     (z (calculate correctly_rounded
          (Helix (helix3d_full (Finite 0) (Finite 0) (Finite 3) (Finite 1) (Finite 1) (Finite 1) (Finite 0)))
          (Finite (884279719003555 / 2 ^ 47))))"
proof -
  have s: "is_finite (fadd (Finite 0) (Finite 0))"
    "is_finite (fadd (Finite 0) (Finite (884279719003555 / 2 ^ 47)))"
    by (simp_all add: eval_double)
  have l: "double_le (Finite 0) (Finite 1)" "double_le (Finite 0) (Finite (884279719003555 / 2 ^ 47))"
    by (simp_all add: double_le_def)
  show ?thesis
    by (rule helix3d_z_monotone[OF _ _ _ _ _ l s]) simp_all
qed

text \<open>
  C7 as the claim states it fails. The helix with origin \<open>(0, 0, 0)\<close>, radius 1 and
  pitch \<open>M_PI \<sqdot> 2\<close> has, at the angle \<open>M_PI \<sqdot> 2\<close>, the third component \<open>M_PI \<sqdot> 2\<close>, about
  6.28: more than 5 away from 1.
\<close>

theorem helix3d_full_turn_counterexample:
  "z (calculate correctly_rounded
        (Helix (helix3d_xyzrs (Finite 0) (Finite 0) (Finite 0) (Finite 1) (fmul M_PI (double_of_int 2))))
        (fmul M_PI (double_of_int 2)))
     = Finite (884279719003555 / 2 ^ 47)
   \<and> 5 < \<bar>884279719003555 / 2 ^ 47 - (1::real)\<bar>"
  unfolding helix3d_xyzrs_full helix3d_z two_pi by (simp add: eval_double)

section \<open>The two formats of a vector\<close>

lemma replicate_numeral: "replicate (numeral k) c = c # replicate (pred_numeral k) c"
  by (simp add: numeral_eq_Suc)

lemma double_1005: "double_of_real (201 / 200) = Finite (1131529406376837 / 1125899906842624)"
  by (simp add: eval_double)

lemma double_neg2: "double_of_int (- 2) = Finite (- 2)"
  by (simp add: eval_double)

lemma fixed2_1005: "num_put FloatFixed 2 (Finite (1131529406376837 / 1125899906842624)) = ''1.00''"
  unfolding num_put_def fixed_mag_def Let_def
  apply (simp add: round_even_def)
  apply (simp add: pad_zeros_def dec_digits.simps digit_char_def replicate_numeral)
  done

lemma fixed2_neg2: "num_put FloatFixed 2 (Finite (- 2)) = ''-2.00''"
  unfolding num_put_def fixed_mag_def Let_def
  apply (simp add: round_even_def)
  apply (simp add: pad_zeros_def dec_digits.simps digit_char_def replicate_numeral)
  done

lemma fixed2_0: "num_put FloatFixed 2 (Finite 0) = ''0.00''"
  unfolding num_put_def fixed_mag_def Let_def
  apply (simp add: round_even_def)
  apply (simp add: pad_zeros_def dec_digits.simps digit_char_def replicate_numeral)
  done

lemma general6_1005: "num_put FloatDefault 6 (Finite (1131529406376837 / 1125899906842624)) = ''1.005''"
  unfolding num_put_def general_mag_def Let_def
  apply (simp add: ilog_def compute_floorlog pow10_def round_even_def)
  apply (simp add: strip_zeros_def pad_zeros_def dec_digits.simps digit_char_def replicate_numeral)
  done

lemma general6_neg2: "num_put FloatDefault 6 (Finite (- 2)) = ''-2''"
  unfolding num_put_def general_mag_def Let_def
  apply (simp add: ilog_def compute_floorlog pow10_def round_even_def)
  apply (simp add: strip_zeros_def pad_zeros_def dec_digits.simps digit_char_def replicate_numeral)
  done

lemma general6_0: "num_put FloatDefault 6 (Finite 0) = ''0''"
  by (simp add: num_put_def general_mag_def)

lemma buffer_vector3d_out:
  "buffer (vector3d_out os v) =
     buffer os @ ''{'' @ num_put (floatfield_of os) (precision os) (x v) @ '','' @
     num_put (floatfield_of os) (precision os) (y v) @ '','' @
     num_put (floatfield_of os) (precision os) (z v) @ ''}''"
  by (simp add: vector3d_out_def put_double_def put_string_def)

lemma str_eq:
  "str v = ''{'' @ num_put FloatFixed 2 (x v) @ '','' @ num_put FloatFixed 2 (y v) @ '','' @
           num_put FloatFixed 2 (z v) @ ''}''"
  by (simp add: str_def Let_def put_double_def put_string_def ostream_new_def)

lemma dec_digits_two:
  assumes "k < 100"
  shows "pad_zeros 2 (dec_digits k) = [digit_char (k div 10), digit_char (k mod 10)]"
proof (cases "k < 10")
  case True
  then show ?thesis
    by (simp add: dec_digits.simps[of k] pad_zeros_def replicate_numeral digit_char_def)
next
  case False
  then have "k div 10 < 10" using assms by simp
  then show ?thesis using False
    by (simp add: dec_digits.simps[of k] dec_digits.simps[of "k div 10"] pad_zeros_def)
qed

lemma fixed_mag_2:
  "fixed_mag 2 m =
     dec_digits (nat (round_even (m * 100)) div 100) @ ''.'' @
     [digit_char (nat (round_even (m * 100)) mod 100 div 10),
      digit_char (nat (round_even (m * 100)) mod 10)]"
proof -
  have "nat (round_even (m * 100)) mod 100 < 100" by simp
  from dec_digits_two[OF this] show ?thesis
    by (simp add: fixed_mag_def Let_def mod_mod_cancel)
qed

text \<open>
  C8 as the claim states it fails. \<^verbatim>\<open>operator<<\<close>, which is what \<open>main\<close> prints points
  and derivatives with, writes the vector \<open>(1.005, -2, 0)\<close> to a stream in its initial
  state as \<^verbatim>\<open>{1.005,-2,0}\<close>, not with two decimals.
\<close>

theorem vector3d_out_counterexample:
  "buffer (vector3d_out ostream_new
      (vector3d_new (double_of_real (201 / 200)) (double_of_int (- 2)) (double_of_int 0)))
     = ''{1.005,-2,0}''
   \<and> buffer (vector3d_out ostream_new
      (vector3d_new (double_of_real (201 / 200)) (double_of_int (- 2)) (double_of_int 0)))
     \<noteq> ''{1.00,-2.00,0.00}''"
  unfolding buffer_vector3d_out
  by (simp add: ostream_new_def vector3d_new_def double_1005 double_neg2 double_of_int_0
      general6_1005 general6_neg2 general6_0)

text \<open>
  C8, amended. \<^verbatim>\<open>str\<close> gives every vector as the bracketed triple of its coordinates,
  each in fixed notation with two decimals: a sign, the integer part, a point and
  exactly two digits of the coordinate rounded to the nearest hundredth; the vector
  \<open>(1.005, -2, 0)\<close> gives \<^verbatim>\<open>{1.00,-2.00,0.00}\<close>. \<^verbatim>\<open>operator<<\<close> is a second format: the same
  bracketed triple, with each coordinate in the float notation and precision of the
  stream it writes to. It is the one \<open>main\<close> prints with, on a stream in its initial
  state: six significant digits, no fixed number of decimals.
\<close>

theorem vector3d_formats:
  "str v = ''{'' @ num_put FloatFixed 2 (x v) @ '','' @ num_put FloatFixed 2 (y v) @ '','' @
           num_put FloatFixed 2 (z v) @ ''}''
   \<and> num_put FloatFixed 2 (Finite r) =
       (if r < 0 then ''-'' else []) @
       dec_digits (nat (round_even (\<bar>r\<bar> * 100)) div 100) @ ''.'' @
       [digit_char (nat (round_even (\<bar>r\<bar> * 100)) mod 100 div 10),
        digit_char (nat (round_even (\<bar>r\<bar> * 100)) mod 10)]
   \<and> str (vector3d_new (double_of_real (201 / 200)) (double_of_int (- 2)) (double_of_int 0))
       = ''{1.00,-2.00,0.00}''
   \<and> buffer (vector3d_out os v) =
       buffer os @ ''{'' @ num_put (floatfield_of os) (precision os) (x v) @ '','' @
       num_put (floatfield_of os) (precision os) (y v) @ '','' @
       num_put (floatfield_of os) (precision os) (z v) @ ''}''
   \<and> buffer (print_curve M ostream_new c) =
       ''Point: {'' @ num_put FloatDefault 6 (x (calculate M c M_PI_4)) @ '','' @
       num_put FloatDefault 6 (y (calculate M c M_PI_4)) @ '','' @
       num_put FloatDefault 6 (z (calculate M c M_PI_4)) @ ''}'' @ [CHR 0x0A] @
       ''Derivative: {'' @ num_put FloatDefault 6 (x (derivative M c M_PI_4)) @ '','' @
       num_put FloatDefault 6 (y (derivative M c M_PI_4)) @ '','' @
       num_put FloatDefault 6 (z (derivative M c M_PI_4)) @ ''}'' @ [CHR 0x0A]"
proof -
  have pr: "buffer (print_curve M ostream_new c) =
       ''Point: {'' @ num_put FloatDefault 6 (x (calculate M c M_PI_4)) @ '','' @
       num_put FloatDefault 6 (y (calculate M c M_PI_4)) @ '','' @
       num_put FloatDefault 6 (z (calculate M c M_PI_4)) @ ''}'' @ [CHR 0x0A] @
       ''Derivative: {'' @ num_put FloatDefault 6 (x (derivative M c M_PI_4)) @ '','' @
       num_put FloatDefault 6 (y (derivative M c M_PI_4)) @ '','' @
       num_put FloatDefault 6 (z (derivative M c M_PI_4)) @ ''}'' @ [CHR 0x0A]"
    by (simp add: print_curve_def Let_def endl_def vector3d_out_def put_double_def
        put_string_def ostream_new_def)
  have ex: "str (vector3d_new (double_of_real (201 / 200)) (double_of_int (- 2)) (double_of_int 0))
       = ''{1.00,-2.00,0.00}''"
    unfolding str_eq
    by (simp add: vector3d_new_def double_1005 double_neg2 double_of_int_0
        fixed2_1005 fixed2_neg2 fixed2_0)
  have sh: "num_put FloatFixed 2 (Finite r) =
       (if r < 0 then ''-'' else []) @
       dec_digits (nat (round_even (\<bar>r\<bar> * 100)) div 100) @ ''.'' @
       [digit_char (nat (round_even (\<bar>r\<bar> * 100)) mod 100 div 10),
        digit_char (nat (round_even (\<bar>r\<bar> * 100)) mod 10)]"
    by (simp add: num_put_def fixed_mag_2)
  show ?thesis
    using str_eq[of v] sh ex buffer_vector3d_out[of os v] pr by blast
qed

section \<open>The period of the ellipse\<close>

lemma sum_12:
  fixes f :: "nat \<Rightarrow> real"
  shows "(\<Sum>m<12. f m) = f 0 + f 1 + f 2 + f 3 + f 4 + f 5 + f 6 + f 7 + f 8 + f 9 + f 10 + f 11"
proof -
  have "{..<12::nat} = {0, 1, 2, 3, 4, 5, 6, 7, 8, 9, 10, 11}"
    by (auto, presburger)
  then show ?thesis by simp
qed

lemma sin_partial: "(\<Sum>m<12. sin_coeff m * (4::real) ^ m) \<le> - 74 / 100"
  unfolding sum_12 by (simp add: sin_coeff_def fact_numeral)

lemma sin_4_bound: "sin (4::real) \<le> - 7 / 10"
proof -
  have "\<bar>sin (4::real) - (\<Sum>m<12. sin_coeff m * 4 ^ m)\<bar> \<le> inverse (fact 12) * \<bar>4\<bar> ^ 12"
    by (rule Maclaurin_sin_bound)
  moreover have "inverse (fact 12) * \<bar>4::real\<bar> ^ 12 \<le> 4 / 100"
    by (simp add: fact_numeral)
  ultimately show ?thesis using sin_partial by linarith
qed

lemma chord_8:
  "(cos (u + 8) - cos u)\<^sup>2 + (sin (u + 8) - sin u)\<^sup>2 = 4 * (sin (4::real))\<^sup>2"
proof -
  have "(cos (u + 8) - cos u)\<^sup>2 + (sin (u + 8) - sin u)\<^sup>2
        = ((cos (u + 8))\<^sup>2 + (sin (u + 8))\<^sup>2) + ((cos u)\<^sup>2 + (sin u)\<^sup>2)
          - 2 * (cos (u + 8) * cos u + sin (u + 8) * sin u)"
    by (simp add: power2_eq_square algebra_simps)
  also have "\<dots> = 2 - 2 * cos ((u + 8) - u)"
    by (simp only: cos_diff sin_cos_squared_add2)
  also have "\<dots> = 2 - 2 * cos (2 * 4)" by simp
  also have "\<dots> = 4 * (sin (4::real))\<^sup>2"
    by (simp only: cos_double_sin) simp
  finally show ?thesis .
qed

lemma round_even_err: "\<bar>of_int (round_even t) - t\<bar> \<le> 1 / 2"
proof -
  have "of_int \<lfloor>t\<rfloor> \<le> t" "t < of_int \<lfloor>t\<rfloor> + 1" by linarith+
  then show ?thesis by (auto simp: round_even_def Let_def)
qed

lemma round_mag_err:
  assumes "0 < m" "m < 2"
  shows "\<bar>round_mag m - m\<bar> \<le> pow2 (- 53)"
proof -
  let ?u = "pow2 (ulp_exp m)"
  have up: "0 < ?u" by (rule pow2_pos)
  have "pow2 (ilog 2 m) < pow2 1" using ilog2_bounds[OF assms(1)] assms(2) by (simp add: pow2_def)
  then have "ilog 2 m < 1" by (rule pow2_less_D)
  then have "ulp_exp m \<le> - 52" by (simp add: ulp_exp_def)
  then have "?u \<le> pow2 (- 52)" by (rule pow2_mono)
  then have u: "?u / 2 \<le> pow2 (- 53)" by (simp add: pow2_def)
  have "round_mag m - m = (of_int (round_even (m / ?u)) - m / ?u) * ?u"
    using assms(1) up by (simp add: round_mag_def field_simps)
  then have "\<bar>round_mag m - m\<bar> = \<bar>of_int (round_even (m / ?u)) - m / ?u\<bar> * ?u"
    using up by (simp add: abs_mult)
  also have "\<dots> \<le> 1 / 2 * ?u"
    using round_even_err[of "m / ?u"] up by (intro mult_right_mono) simp_all
  finally show ?thesis using u by simp
qed

lemma round_real_err:
  assumes "\<bar>v\<bar> < 2"
  shows "is_finite (round_real zs v) \<and> \<bar>dval (round_real zs v) - v\<bar> \<le> pow2 (- 53)"
proof (cases "v = 0")
  case True
  have "(0::real) \<le> pow2 (- 53)" by (simp add: pow2_def)
  then show ?thesis using True by (simp add: round_real_def)
next
  case False
  have p: "pow2 (- 53) \<le> 1" "(3::real) < pow2 1024" by (simp_all add: pow2_def)
  have e: "\<bar>round_mag \<bar>v\<bar> - \<bar>v\<bar>\<bar> \<le> pow2 (- 53)"
    using False assms by (intro round_mag_err) simp_all
  then have lt: "round_mag \<bar>v\<bar> < pow2 1024" using assms p by linarith
  then have fin: "is_finite (round_real zs v)" by (simp add: is_finite_round_real)
  have "dval (round_real zs v) = (if v < 0 then - round_mag \<bar>v\<bar> else round_mag \<bar>v\<bar>)"
    using False lt by (simp add: round_real_def round_double_cases)
  then have "\<bar>dval (round_real zs v) - v\<bar> \<le> pow2 (- 53)"
    using e by (auto split: if_splits)
  then show ?thesis using fin by simp
qed

lemma coordinate_err:
  assumes "is_finite q" "\<bar>dval q\<bar> \<le> 3 / 2"
  shows "is_finite (fadd (Finite 0) (fmul (Finite 1) q))"
    and "\<bar>dval (fadd (Finite 0) (fmul (Finite 1) q)) - dval q\<bar> \<le> 2 * pow2 (- 53)"
proof -
  have p: "(0::real) \<le> pow2 (- 53)" "pow2 (- 53) \<le> 1 / 4" by (simp_all add: pow2_def)
  let ?r2 = "fmul (Finite 1) q"
  have r2: "?r2 = round_real (dsign (Finite 1) \<noteq> dsign q) (dval q)"
    using assms(1) by (simp add: fmul_finite)
  have b1: "\<bar>dval q\<bar> < 2" using assms(2) by linarith
  have f2: "is_finite ?r2" and e2: "\<bar>dval ?r2 - dval q\<bar> \<le> pow2 (- 53)"
    unfolding r2 using round_real_err[OF b1] by simp_all
  let ?r3 = "fadd (Finite 0) ?r2"
  have r3: "?r3 = round_real (dsign (Finite 0) \<and> dsign ?r2) (dval ?r2)"
    using f2 by (simp add: fadd_finite)
  have b2: "\<bar>dval ?r2\<bar> < 2" using e2 assms(2) p by linarith
  have f3: "is_finite ?r3" and e3: "\<bar>dval ?r3 - dval ?r2\<bar> \<le> pow2 (- 53)"
    unfolding r3 using round_real_err[OF b2] by simp_all
  show "is_finite ?r3" by (rule f3)
  show "\<bar>dval ?r3 - dval q\<bar> \<le> 2 * pow2 (- 53)" using e2 e3 by linarith
qed

lemma unit_circle_x:
  "x (calculate M (Ellipse (ellipse3d_xyab (Finite 0) (Finite 0) (Finite 1) (Finite 1))) \<theta>)
     = fadd (Finite 0) (fmul (Finite 1) (cos_d M \<theta>))"
  by (simp add: ellipse3d_calculate_def ellipse3d_xyab_def ellipse3d_xyzab_def vector3d_new_def)

lemma unit_circle_y:
  "y (calculate M (Ellipse (ellipse3d_xyab (Finite 0) (Finite 0) (Finite 1) (Finite 1))) \<theta>)
     = fadd (Finite 0) (fmul (Finite 1) (sin_d M \<theta>))"
  by (simp add: ellipse3d_calculate_def ellipse3d_xyab_def ellipse3d_xyzab_def vector3d_new_def)

lemma big_angle_sum:
  "fadd (Finite (2 ^ 54)) (fmul M_PI (double_of_int 2)) = Finite (2 ^ 54 + 8)"
  unfolding two_pi by (simp add: eval_double)

lemma square_perturbed:
  fixes A d :: real
  assumes "\<bar>A\<bar> \<le> 2" "\<bar>d\<bar> \<le> e" "e \<le> 1"
  shows "A\<^sup>2 - 4 * e \<le> (A + d)\<^sup>2"
proof -
  have 1: "(A + d)\<^sup>2 = A\<^sup>2 + 2 * (A * d) + d\<^sup>2"
    by (simp add: power2_eq_square algebra_simps)
  have "\<bar>A * d\<bar> \<le> 2 * e"
    unfolding abs_mult using assms by (intro mult_mono) simp_all
  then have 2: "- (2 * e) \<le> A * d" by linarith
  have 3: "0 \<le> d\<^sup>2" by simp
  show ?thesis unfolding 1 using 2 3 by linarith
qed

lemma cos_lipschitz: "\<bar>cos u - cos v\<bar> \<le> \<bar>u - v\<bar>" for u v :: real
proof -
  have "\<bar>cos u - cos v\<bar> = 2 * \<bar>sin ((u + v) / 2)\<bar> * \<bar>sin ((v - u) / 2)\<bar>"
    by (simp add: cos_diff_cos abs_mult)
  also have "\<dots> \<le> 2 * 1 * \<bar>(v - u) / 2\<bar>"
    by (intro mult_mono abs_sin_x_le_abs_x) simp_all
  finally show ?thesis by simp
qed

lemma sin_lipschitz: "\<bar>sin u - sin v\<bar> \<le> \<bar>u - v\<bar>" for u v :: real
proof -
  have "\<bar>sin u - sin v\<bar> = 2 * \<bar>sin ((u - v) / 2)\<bar> * \<bar>cos ((u + v) / 2)\<bar>"
    by (simp add: sin_diff_sin abs_mult)
  also have "\<dots> \<le> 2 * \<bar>(u - v) / 2\<bar> * 1"
    by (intro mult_mono abs_sin_x_le_abs_x) simp_all
  finally show ?thesis by simp
qed

lemma cos_d_correctly_rounded:
  "is_finite v \<Longrightarrow> cos_d correctly_rounded v = round_real False (cos (dval v))"
  by (simp add: correctly_rounded_def double_of_real_def)

lemma sin_d_correctly_rounded:
  "is_finite v \<Longrightarrow> sin_d correctly_rounded v = round_real (dsign v) (sin (dval v))"
  by (simp add: correctly_rounded_def)

lemma unit_circle_far_apart:
  assumes c0: "is_finite (cos_d M (Finite (2 ^ 54)))"
      "\<bar>dval (cos_d M (Finite (2 ^ 54))) - cos (2 ^ 54)\<bar> \<le> 1 / 100"
    and s0: "is_finite (sin_d M (Finite (2 ^ 54)))"
      "\<bar>dval (sin_d M (Finite (2 ^ 54))) - sin (2 ^ 54)\<bar> \<le> 1 / 100"
    and c8: "is_finite (cos_d M (Finite (2 ^ 54 + 8)))"
      "\<bar>dval (cos_d M (Finite (2 ^ 54 + 8))) - cos (2 ^ 54 + 8)\<bar> \<le> 1 / 100"
    and s8: "is_finite (sin_d M (Finite (2 ^ 54 + 8)))"
      "\<bar>dval (sin_d M (Finite (2 ^ 54 + 8))) - sin (2 ^ 54 + 8)\<bar> \<le> 1 / 100"
  shows "is_finite (x (calculate M
            (Ellipse (ellipse3d_xyab (Finite 0) (Finite 0) (Finite 1) (Finite 1))) (Finite (2 ^ 54))))
     \<and> is_finite (y (calculate M
            (Ellipse (ellipse3d_xyab (Finite 0) (Finite 0) (Finite 1) (Finite 1))) (Finite (2 ^ 54))))
     \<and> is_finite (x (calculate M
            (Ellipse (ellipse3d_xyab (Finite 0) (Finite 0) (Finite 1) (Finite 1)))
            (Finite (2 ^ 54 + 8))))
     \<and> is_finite (y (calculate M
            (Ellipse (ellipse3d_xyab (Finite 0) (Finite 0) (Finite 1) (Finite 1)))
            (Finite (2 ^ 54 + 8))))
     \<and> 1 < (dval (x (calculate M
              (Ellipse (ellipse3d_xyab (Finite 0) (Finite 0) (Finite 1) (Finite 1)))
              (Finite (2 ^ 54 + 8))))
          - dval (x (calculate M
              (Ellipse (ellipse3d_xyab (Finite 0) (Finite 0) (Finite 1) (Finite 1)))
              (Finite (2 ^ 54)))))\<^sup>2
        + (dval (y (calculate M
              (Ellipse (ellipse3d_xyab (Finite 0) (Finite 0) (Finite 1) (Finite 1)))
              (Finite (2 ^ 54 + 8))))
          - dval (y (calculate M
              (Ellipse (ellipse3d_xyab (Finite 0) (Finite 0) (Finite 1) (Finite 1)))
              (Finite (2 ^ 54)))))\<^sup>2"
proof -
  define t :: real where "t = 2 ^ 54"
  define X where "X = fadd (Finite 0) (fmul (Finite 1) (cos_d M (Finite t)))"
  define Y where "Y = fadd (Finite 0) (fmul (Finite 1) (sin_d M (Finite t)))"
  define X' where "X' = fadd (Finite 0) (fmul (Finite 1) (cos_d M (Finite (t + 8))))"
  define Y' where "Y' = fadd (Finite 0) (fmul (Finite 1) (sin_d M (Finite (t + 8))))"
  define eps :: real where "eps = 1 / 100 + 2 * pow2 (- 53)"
  have eps: "0 \<le> eps" "16 * eps \<le> 1 / 2" "2 * eps \<le> 1"
    by (simp_all add: eps_def pow2_def)
  have bc: "\<bar>cos u\<bar> \<le> 1" and bs: "\<bar>sin u\<bar> \<le> 1" for u :: real by simp_all
  have m: "\<bar>dval q\<bar> \<le> 3 / 2" if "\<bar>dval q - w\<bar> \<le> 1 / 100" "\<bar>w\<bar> \<le> 1" for q and w :: real
    using that by linarith
  have fX: "is_finite X" and eX: "\<bar>dval X - cos t\<bar> \<le> eps"
    using coordinate_err[OF c0(1) m[OF c0(2) bc]] c0(2) unfolding X_def eps_def t_def by linarith+
  have fY: "is_finite Y" and eY: "\<bar>dval Y - sin t\<bar> \<le> eps"
    using coordinate_err[OF s0(1) m[OF s0(2) bs]] s0(2) unfolding Y_def eps_def t_def by linarith+
  have fX': "is_finite X'" and eX': "\<bar>dval X' - cos (t + 8)\<bar> \<le> eps"
    using coordinate_err[OF c8(1) m[OF c8(2) bc]] c8(2) unfolding X'_def eps_def t_def by linarith+
  have fY': "is_finite Y'" and eY': "\<bar>dval Y' - sin (t + 8)\<bar> \<le> eps"
    using coordinate_err[OF s8(1) m[OF s8(2) bs]] s8(2) unfolding Y'_def eps_def t_def by linarith+
  define A where "A = cos (t + 8) - cos t"
  define B where "B = sin (t + 8) - sin t"
  have AB: "A\<^sup>2 + B\<^sup>2 = 4 * (sin (4::real))\<^sup>2" unfolding A_def B_def by (rule chord_8)
  have "7 / 10 \<le> - sin (4::real)" using sin_4_bound by linarith
  then have "(7 / 10)\<^sup>2 \<le> (- sin (4::real))\<^sup>2" by (intro power_mono) simp_all
  then have s4: "49 / 100 \<le> (sin (4::real))\<^sup>2" by (simp add: power2_eq_square)
  have bA: "\<bar>A\<bar> \<le> 2" unfolding A_def using bc[of "t + 8"] bc[of t] by linarith
  have bB: "\<bar>B\<bar> \<le> 2" unfolding B_def using bs[of "t + 8"] bs[of t] by linarith
  have dA: "\<bar>(dval X' - dval X) - A\<bar> \<le> 2 * eps" unfolding A_def using eX eX' by linarith
  have dB: "\<bar>(dval Y' - dval Y) - B\<bar> \<le> 2 * eps" unfolding B_def using eY eY' by linarith
  have "A\<^sup>2 - 4 * (2 * eps) \<le> (A + ((dval X' - dval X) - A))\<^sup>2"
    by (rule square_perturbed[OF bA dA eps(3)])
  then have qA: "A\<^sup>2 - 8 * eps \<le> (dval X' - dval X)\<^sup>2" by simp
  have "B\<^sup>2 - 4 * (2 * eps) \<le> (B + ((dval Y' - dval Y) - B))\<^sup>2"
    by (rule square_perturbed[OF bB dB eps(3)])
  then have qB: "B\<^sup>2 - 8 * eps \<le> (dval Y' - dval Y)\<^sup>2" by simp
  have far: "1 < (dval X' - dval X)\<^sup>2 + (dval Y' - dval Y)\<^sup>2"
    using qA qB AB s4 eps by linarith
  show ?thesis
    unfolding unit_circle_x unit_circle_y
    using fX fY fX' fY' far unfolding X_def Y_def X'_def Y'_def t_def by simp
qed

lemma correctly_rounded_accurate:
  "is_finite (cos_d correctly_rounded (Finite t))"
  "\<bar>dval (cos_d correctly_rounded (Finite t)) - cos t\<bar> \<le> 1 / 100"
  "is_finite (sin_d correctly_rounded (Finite t))"
  "\<bar>dval (sin_d correctly_rounded (Finite t)) - sin t\<bar> \<le> 1 / 100"
proof -
  have p: "pow2 (- 53) \<le> 1 / 100" by (simp add: pow2_def)
  have c1: "\<bar>cos t\<bar> < 2" and s1: "\<bar>sin t\<bar> < 2"
    using abs_cos_le_one[of t] abs_sin_le_one[of t] by linarith+
  show "is_finite (cos_d correctly_rounded (Finite t))"
    "\<bar>dval (cos_d correctly_rounded (Finite t)) - cos t\<bar> \<le> 1 / 100"
    using round_real_err[OF c1, of False] p by (simp_all add: cos_d_correctly_rounded)
  show "is_finite (sin_d correctly_rounded (Finite t))"
    "\<bar>dval (sin_d correctly_rounded (Finite t)) - sin t\<bar> \<le> 1 / 100"
    using round_real_err[OF s1, of "t < 0"] p by (simp_all add: sin_d_correctly_rounded)
qed

text \<open>
  C6 as the claim states it fails. At the angle \<open>2^54\<close> the doubles are 4 apart, so the
  sum with \<open>M_PI \<sqdot> 2\<close> is the angle \<open>2^54 + 8\<close>, 1.7 radians past the full turn. On the
  unit circle about the origin, with \<open>cos\<close> and \<open>sin\<close> correctly rounded, the point at the
  sum is at a distance of more than 1 from the point at \<open>2^54\<close>.
\<close>

theorem ellipse3d_period_counterexample:
  "fadd (Finite (2 ^ 54)) (fmul M_PI (double_of_int 2)) = Finite (2 ^ 54 + 8)
   \<and> is_finite (x (calculate correctly_rounded
        (Ellipse (ellipse3d_xyab (Finite 0) (Finite 0) (Finite 1) (Finite 1))) (Finite (2 ^ 54))))
   \<and> is_finite (y (calculate correctly_rounded
        (Ellipse (ellipse3d_xyab (Finite 0) (Finite 0) (Finite 1) (Finite 1))) (Finite (2 ^ 54))))
   \<and> is_finite (x (calculate correctly_rounded
        (Ellipse (ellipse3d_xyab (Finite 0) (Finite 0) (Finite 1) (Finite 1)))
        (fadd (Finite (2 ^ 54)) (fmul M_PI (double_of_int 2)))))
   \<and> is_finite (y (calculate correctly_rounded
        (Ellipse (ellipse3d_xyab (Finite 0) (Finite 0) (Finite 1) (Finite 1)))
        (fadd (Finite (2 ^ 54)) (fmul M_PI (double_of_int 2)))))
   \<and> 1 < (dval (x (calculate correctly_rounded
              (Ellipse (ellipse3d_xyab (Finite 0) (Finite 0) (Finite 1) (Finite 1)))
              (fadd (Finite (2 ^ 54)) (fmul M_PI (double_of_int 2)))))
          - dval (x (calculate correctly_rounded
              (Ellipse (ellipse3d_xyab (Finite 0) (Finite 0) (Finite 1) (Finite 1)))
              (Finite (2 ^ 54)))))\<^sup>2
        + (dval (y (calculate correctly_rounded
              (Ellipse (ellipse3d_xyab (Finite 0) (Finite 0) (Finite 1) (Finite 1)))
              (fadd (Finite (2 ^ 54)) (fmul M_PI (double_of_int 2)))))
          - dval (y (calculate correctly_rounded
              (Ellipse (ellipse3d_xyab (Finite 0) (Finite 0) (Finite 1) (Finite 1)))
              (Finite (2 ^ 54)))))\<^sup>2"
  unfolding big_angle_sum
  using unit_circle_far_apart[of correctly_rounded, OF correctly_rounded_accurate correctly_rounded_accurate]
  by simp

section \<open>The order of the sorted container\<close>

text \<open>
  On radii that are not NaN the comparison of line 158 is a strict weak order, and the
  container that \<open>sort_radius\<close> returns holds the circles of its argument in
  non-decreasing order of radius, as the one that \<^verbatim>\<open>std::sort\<close> leaves does. The radii
  that the program draws are integers converted to \<open>double\<close>, never NaN.
\<close>

lemma double_less_imp_le: "double_less u v \<Longrightarrow> double_le u v"
  by (auto simp: double_less_def double_le_def split: option.splits)

lemma double_le_trans: "double_le u v \<Longrightarrow> double_le v w \<Longrightarrow> double_le u w"
  by (auto simp: double_le_def split: option.splits)

lemma double_le_total: "u \<noteq> NaN \<Longrightarrow> v \<noteq> NaN \<Longrightarrow> \<not> double_less v u \<Longrightarrow> double_le u v"
  by (cases u; cases v) (auto simp: double_less_def double_le_def split: if_splits)

lemma set_insort_radius: "set (insort_radius c ds) = insert c (set ds)"
  by (induction ds) auto

lemma set_sort_radius: "set (sort_radius cs) = set cs"
  by (induction cs) (auto simp: set_insort_radius)

lemma sorted_insort_radius:
  assumes "ellipse3d.a c \<noteq> NaN" "\<forall>d \<in> set ds. ellipse3d.a d \<noteq> NaN"
    and "sorted_wrt (\<lambda>c d. double_le (ellipse3d.a c) (ellipse3d.a d)) ds"
  shows "sorted_wrt (\<lambda>c d. double_le (ellipse3d.a c) (ellipse3d.a d)) (insort_radius c ds)"
  using assms
proof (induction ds)
  case Nil
  then show ?case by simp
next
  case (Cons d ds)
  show ?case
  proof (cases "double_less (ellipse3d.a d) (ellipse3d.a c)")
    case True
    then have "double_le (ellipse3d.a d) (ellipse3d.a c)" by (rule double_less_imp_le)
    then show ?thesis using True Cons by (auto simp: set_insort_radius)
  next
    case False
    then have le: "double_le (ellipse3d.a c) (ellipse3d.a d)"
      using Cons.prems by (intro double_le_total) simp_all
    then have "\<forall>e \<in> set ds. double_le (ellipse3d.a c) (ellipse3d.a e)"
      using Cons.prems(3) by (auto intro: double_le_trans)
    then show ?thesis using False le Cons.prems(3) by simp
  qed
qed

lemma sorted_sort_radius:
  assumes "\<forall>c \<in> set cs. ellipse3d.a c \<noteq> NaN"
  shows "sorted_wrt (\<lambda>c d. double_le (ellipse3d.a c) (ellipse3d.a d)) (sort_radius cs)"
  using assms by (induction cs) (auto intro!: sorted_insort_radius simp: set_sort_radius)

lemma round_real_not_NaN: "round_real zs v \<noteq> NaN"
  by (simp add: round_real_def round_double_def Let_def)

lemma circleContainer_append:
  "circleContainer (xs @ ys) = circleContainer xs @ circleContainer ys"
  by (induction xs) (auto split: option.splits)

lemma make_curve_radius:
  "\<forall>c \<in> set (circleContainer [fst (make_curve i g)]). ellipse3d.a c \<noteq> NaN"
  by (auto simp: make_curve_def make_ellipse_def make_circle_def make_helix_def
      circle3d_xyr_def circle3d_xyzr_def ellipse3d_xyzab_def double_of_int_def
      double_of_real_def round_real_not_NaN split: prod.splits)

lemma generate_radii:
  "\<forall>c \<in> set (circleContainer curves). ellipse3d.a c \<noteq> NaN \<Longrightarrow>
   \<forall>c \<in> set (circleContainer (generate i g curves)). ellipse3d.a c \<noteq> NaN"
proof (induction i g curves rule: generate.induct)
  case (1 i g curves)
  show ?case
  proof (cases "i < 100")
    case True
    obtain c g' where cg: "make_curve i g = (c, g')" by (cases "make_curve i g")
    have "\<forall>d \<in> set (circleContainer (curves @ [c])). ellipse3d.a d \<noteq> NaN"
      using "1.prems" make_curve_radius[of i g] cg by (auto simp: circleContainer_append)
    from "1.IH"[OF True cg[symmetric] this] show ?thesis
      using True cg by (subst generate.simps) simp
  next
    case False
    then show ?thesis using "1.prems" by (subst generate.simps) simp
  qed
qed

lemma main_sorted:
  "sorted_wrt (\<lambda>c d. double_le (ellipse3d.a c) (ellipse3d.a d))
     (sort_radius (circleContainer (generate 0 g [])))"
  using generate_radii[of "[]" 0 g] by (intro sorted_sort_radius) simp

section \<open>The double nearest to \<open>2\<pi>\<close>\<close>

text \<open>
  Machin's formula and the alternating series of the arc tangent bracket \<open>\<pi>\<close> to 20
  digits, which places the double \<open>M_PI \<sqdot> 2\<close> within \<open>2^-51\<close> of \<open>2\<pi>\<close>.
\<close>

lemma arctan_brackets:
  fixes v :: real
  assumes "0 < v" "v \<le> 1"
  shows "(\<Sum>k<2 * n. (- 1) ^ k * (1 / real (k * 2 + 1) * v ^ (k * 2 + 1))) \<le> arctan v"
    and "arctan v \<le> (\<Sum>k<2 * n + 1. (- 1) ^ k * (1 / real (k * 2 + 1) * v ^ (k * 2 + 1)))"
proof -
  have a: "\<bar>v\<bar> \<le> 1" using assms by simp
  have p: "0 < 1 / real (0 * 2 + 1) * v ^ (0 * 2 + 1)" using assms by simp
  from summable_Leibniz(2)[OF zeroseq_arctan_series[OF a] monoseq_arctan_series[OF a]] p
  have "(\<Sum>k. (- 1) ^ k * (1 / real (k * 2 + 1) * v ^ (k * 2 + 1)))
      \<in> {\<Sum>k<2 * n. (- 1) ^ k * (1 / real (k * 2 + 1) * v ^ (k * 2 + 1)) ..
         \<Sum>k<2 * n + 1. (- 1) ^ k * (1 / real (k * 2 + 1) * v ^ (k * 2 + 1))}"
    by blast
  then show "(\<Sum>k<2 * n. (- 1) ^ k * (1 / real (k * 2 + 1) * v ^ (k * 2 + 1))) \<le> arctan v"
    and "arctan v \<le> (\<Sum>k<2 * n + 1. (- 1) ^ k * (1 / real (k * 2 + 1) * v ^ (k * 2 + 1)))"
    unfolding arctan_series[OF a] by simp_all
qed

lemma arctan_5_bounds:
  "19739555984988075824 / 10 ^ 20 \<le> arctan (1 / 5 :: real)"
  "arctan (1 / 5 :: real) \<le> 19739555984988075838 / 10 ^ 20"
proof -
  have "(19739555984988075824 / 10 ^ 20 :: real)
      \<le> (\<Sum>k<2 * 6. (- 1) ^ k * (1 / real (k * 2 + 1) * (1 / 5) ^ (k * 2 + 1)))"
    by (simp add: lessThan_nat_numeral power_divide)
  then show "19739555984988075824 / 10 ^ 20 \<le> arctan (1 / 5 :: real)"
    using arctan_brackets(1)[of "1 / 5" 6] by simp
  have "(\<Sum>k<2 * 6 + 1. (- 1) ^ k * (1 / real (k * 2 + 1) * (1 / 5) ^ (k * 2 + 1)))
      \<le> (19739555984988075838 / 10 ^ 20 :: real)"
    by (simp add: lessThan_nat_numeral power_divide)
  then show "arctan (1 / 5 :: real) \<le> 19739555984988075838 / 10 ^ 20"
    using arctan_brackets(2)[of "1 / 5" 6] by simp
qed

lemma arctan_239_bounds:
  "418407600207472386 / 10 ^ 20 \<le> arctan (1 / 239 :: real)"
  "arctan (1 / 239 :: real) \<le> 418407600207472387 / 10 ^ 20"
proof -
  have "(418407600207472386 / 10 ^ 20 :: real)
      \<le> (\<Sum>k<2 * 2. (- 1) ^ k * (1 / real (k * 2 + 1) * (1 / 239) ^ (k * 2 + 1)))"
    by (simp add: lessThan_nat_numeral power_divide)
  then show "418407600207472386 / 10 ^ 20 \<le> arctan (1 / 239 :: real)"
    using arctan_brackets(1)[of "1 / 239" 2] by simp
  have "(\<Sum>k<2 * 2 + 1. (- 1) ^ k * (1 / real (k * 2 + 1) * (1 / 239) ^ (k * 2 + 1)))
      \<le> (418407600207472387 / 10 ^ 20 :: real)"
    by (simp add: lessThan_nat_numeral power_divide)
  then show "arctan (1 / 239 :: real) \<le> 418407600207472387 / 10 ^ 20"
    using arctan_brackets(2)[of "1 / 239" 2] by simp
qed

lemma pi_bounds:
  "314159265358979323636 / 10 ^ 20 \<le> pi" "pi \<le> 314159265358979323864 / 10 ^ 20"
  using machin arctan_5_bounds arctan_239_bounds by simp_all

text \<open>The double \<open>M_PI * 2\<close> is within \<open>2^-51\<close> of \<open>2\<pi>\<close>.\<close>

lemma two_pi_close: "\<bar>884279719003555 / 2 ^ 47 - 2 * pi\<bar> \<le> 1 / 2 ^ 51"
  using pi_bounds by simp

section \<open>The relative error of rounding\<close>

text \<open>
  Rounding to the nearest double moves a real of magnitude below \<open>2^1023\<close> by at most
  \<open>2^-53\<close> of its magnitude, or by half the least subnormal.
\<close>

lemma round_mag_rel_err:
  assumes "0 < m"
  shows "\<bar>round_mag m - m\<bar> \<le> pow2 (- 53) * m + pow2 (- 1075)"
proof -
  let ?u = "pow2 (ulp_exp m)"
  have up: "0 < ?u" by (rule pow2_pos)
  have "round_mag m - m = (of_int (round_even (m / ?u)) - m / ?u) * ?u"
    using assms up by (simp add: round_mag_def field_simps)
  then have "\<bar>round_mag m - m\<bar> = \<bar>of_int (round_even (m / ?u)) - m / ?u\<bar> * ?u"
    using up by (simp add: abs_mult)
  also have "\<dots> \<le> 1 / 2 * ?u"
    using round_even_err[of "m / ?u"] up by (intro mult_right_mono) simp_all
  finally have half: "\<bar>round_mag m - m\<bar> \<le> ?u / 2" by simp
  have h: "pow2 (k - 1) = pow2 k / 2" for k
    using pow2_add[of "k - 1" 1] by (simp add: pow2_def)
  show ?thesis
  proof (cases "- 1022 \<le> ilog 2 m")
    case True
    then have "ulp_exp m = ilog 2 m + (- 52)" by (simp add: ulp_exp_def)
    then have "?u = pow2 (ilog 2 m) * pow2 (- 52)" by (simp only: pow2_add)
    also have "\<dots> \<le> m * pow2 (- 52)"
      using ilog2_bounds[OF assms] pow2_pos[of "- 52"] by (intro mult_right_mono) simp_all
    finally have "?u \<le> m * pow2 (- 52)" .
    moreover have "m * pow2 (- 52) = 2 * (pow2 (- 53) * m)" by (simp add: pow2_def)
    ultimately show ?thesis using half pow2_pos[of "- 1075"] by linarith
  next
    case False
    then have "ulp_exp m = - 1074" by (simp add: ulp_exp_def)
    then have "?u / 2 = pow2 (- 1075)" using h[of "- 1074"] by simp
    moreover have "0 \<le> pow2 (- 53) * m"
      using assms pow2_pos[of "- 53"] by (intro mult_nonneg_nonneg) simp_all
    ultimately show ?thesis using half by linarith
  qed
qed

lemma round_real_rel_err:
  assumes "\<bar>v\<bar> < pow2 1023"
  shows "is_finite (round_real zs v)
    \<and> \<bar>dval (round_real zs v) - v\<bar> \<le> pow2 (- 53) * \<bar>v\<bar> + pow2 (- 1075)"
proof (cases "v = 0")
  case True
  have "(0::real) \<le> pow2 (- 1075)" using pow2_pos[of "- 1075"] by simp
  then show ?thesis using True by (simp add: round_real_def)
next
  case False
  have e: "\<bar>round_mag \<bar>v\<bar> - \<bar>v\<bar>\<bar> \<le> pow2 (- 53) * \<bar>v\<bar> + pow2 (- 1075)"
    using False by (intro round_mag_rel_err) simp
  have lt: "round_mag \<bar>v\<bar> < pow2 1024" using assms by (rule round_mag_below)
  then have fin: "is_finite (round_real zs v)" by (simp add: is_finite_round_real)
  have "dval (round_real zs v) = (if v < 0 then - round_mag \<bar>v\<bar> else round_mag \<bar>v\<bar>)"
    using False lt by (simp add: round_real_def round_double_cases)
  then have "\<bar>dval (round_real zs v) - v\<bar> = \<bar>round_mag \<bar>v\<bar> - \<bar>v\<bar>\<bar>"
    by (auto split: if_splits)
  then show ?thesis using fin e by simp
qed

lemma fadd_err:
  assumes "is_finite u" "is_finite v" "\<bar>dval u + dval v\<bar> \<le> B" "B < pow2 1023"
  shows "is_finite (fadd u v)"
    and "\<bar>dval (fadd u v) - (dval u + dval v)\<bar> \<le> pow2 (- 53) * B + pow2 (- 1075)"
proof -
  have lt: "\<bar>dval u + dval v\<bar> < pow2 1023" using assms by linarith
  note r = round_real_rel_err[OF lt, of "dsign u \<and> dsign v"]
  have eq: "fadd u v = round_real (dsign u \<and> dsign v) (dval u + dval v)"
    using assms by (simp add: fadd_finite)
  show "is_finite (fadd u v)" unfolding eq using r by simp
  have "pow2 (- 53) * \<bar>dval u + dval v\<bar> \<le> pow2 (- 53) * B"
    using assms(3) pow2_pos[of "- 53"] by (intro mult_left_mono) simp_all
  then show "\<bar>dval (fadd u v) - (dval u + dval v)\<bar> \<le> pow2 (- 53) * B + pow2 (- 1075)"
    unfolding eq using r by linarith
qed

lemma fmul_err:
  assumes "is_finite u" "is_finite v" "\<bar>dval u * dval v\<bar> \<le> B" "B < pow2 1023"
  shows "is_finite (fmul u v)"
    and "\<bar>dval (fmul u v) - dval u * dval v\<bar> \<le> pow2 (- 53) * B + pow2 (- 1075)"
proof -
  have lt: "\<bar>dval u * dval v\<bar> < pow2 1023" using assms by linarith
  note r = round_real_rel_err[OF lt, of "dsign u \<noteq> dsign v"]
  have eq: "fmul u v = round_real (dsign u \<noteq> dsign v) (dval u * dval v)"
    using assms by (simp add: fmul_finite)
  show "is_finite (fmul u v)" unfolding eq using r by simp
  have "pow2 (- 53) * \<bar>dval u * dval v\<bar> \<le> pow2 (- 53) * B"
    using assms(3) pow2_pos[of "- 53"] by (intro mult_left_mono) simp_all
  then show "\<bar>dval (fmul u v) - dval u * dval v\<bar> \<le> pow2 (- 53) * B + pow2 (- 1075)"
    unfolding eq using r by linarith
qed

lemma tiny_le: "pow2 (- 1075) \<le> 1 / 2 ^ 60"
proof -
  have "pow2 (- 1075) \<le> pow2 (- 60)" by (rule pow2_mono) simp
  also have "pow2 (- 60) = 1 / 2 ^ 60" by (simp add: pow2_def)
  finally show ?thesis .
qed

lemma huge_lt: "(2::real) ^ 1002 < pow2 1023"
proof -
  have "pow2 1002 < pow2 1023" using pow2_mono[of 1003 1023] pow2_add[of 1002 1] pow2_pos[of 1002]
    by (simp add: pow2_def[of 1])
  moreover have "pow2 1002 = 2 ^ 1002" using pow2_nat[of 1002] by simp
  ultimately show ?thesis by simp
qed

lemma small_consts:
  "pow2 (- 53) = 1 / 2 ^ 53" "0 < pow2 (- 1075)" "pow2 (- 1075) \<le> 1 / 2 ^ 60"
  "pow2 (- 48) = 1 / 2 ^ 48" "(2::real) ^ 1002 < pow2 1023" "pow2 1000 = 2 ^ 1000"
  using tiny_le huge_lt pow2_pos[of "- 1075"] pow2_nat[of 1000]
  by (simp_all add: pow2_def[of "- 53"] pow2_def[of "- 48"])

lemma angle_sum_close:
  assumes "is_finite \<theta>" "\<bar>dval \<theta>\<bar> \<le> T" "T \<le> pow2 1000"
  shows "is_finite (fadd \<theta> (fmul M_PI (double_of_int 2)))"
    and "\<bar>dval (fadd \<theta> (fmul M_PI (double_of_int 2))) - dval \<theta> - 2 * pi\<bar>
           \<le> pow2 (- 53) * (T + 7) + pow2 (- 1075) + 1 / 2 ^ 51"
proof -
  let ?c = "884279719003555 / 2 ^ 47 :: real"
  have c0: "0 \<le> ?c" by simp
  have c7: "?c \<le> 7" by simp
  note c = c0 c7
  have b: "\<bar>dval \<theta> + dval (Finite ?c)\<bar> \<le> T + 7" using assms(2) c by simp
  have "(2::real) ^ 1000 + 7 < 2 ^ 1002" by simp
  then have lt: "T + 7 < pow2 1023" using assms(3) small_consts(5,6) by linarith
  have f: "is_finite (Finite ?c)" by simp
  note e = fadd_err[OF assms(1) f b lt]
  show "is_finite (fadd \<theta> (fmul M_PI (double_of_int 2)))" unfolding two_pi by (rule e(1))
  have "\<bar>dval (fadd \<theta> (Finite ?c)) - dval \<theta> - 2 * pi\<bar>
      \<le> \<bar>dval (fadd \<theta> (Finite ?c)) - (dval \<theta> + dval (Finite ?c))\<bar> + \<bar>?c - 2 * pi\<bar>"
    by simp
  then show "\<bar>dval (fadd \<theta> (fmul M_PI (double_of_int 2))) - dval \<theta> - 2 * pi\<bar>
           \<le> pow2 (- 53) * (T + 7) + pow2 (- 1075) + 1 / 2 ^ 51"
    unfolding two_pi using e(2) two_pi_close by linarith
qed

lemma coordinate_close:
  assumes fin: "is_finite c0" "is_finite r" "is_finite q" "is_finite q'"
    and box: "\<bar>dval c0\<bar> \<le> R" "\<bar>dval r\<bar> \<le> R" "1 \<le> R" "R \<le> pow2 1000"
    and q: "\<bar>dval q\<bar> \<le> 2" "\<bar>dval q'\<bar> \<le> 2" "\<bar>dval q' - dval q\<bar> \<le> D"
  shows "is_finite (fadd c0 (fmul r q))" "is_finite (fadd c0 (fmul r q'))"
    "\<bar>dval (fadd c0 (fmul r q')) - dval (fadd c0 (fmul r q))\<bar>
       \<le> R * D + 12 * (pow2 (- 53) * R) + 4 * pow2 (- 1075)"
proof -
  define u where "u = pow2 (- 53)"
  define h where "h = pow2 (- 1075)"
  have u: "u = 1 / 2 ^ 53" unfolding u_def by (rule small_consts(1))
  have h: "0 < h" "h \<le> 1 / 2 ^ 60"
    unfolding h_def by (rule small_consts(2), rule small_consts(3))
  have big: "4 * R < pow2 1023"
  proof -
    have "4 * R \<le> 4 * 2 ^ 1000" using box(4) small_consts(6) by simp
    also have "\<dots> = (2::real) ^ 1002" by simp
    finally show ?thesis using small_consts(5) by linarith
  qed
  have prod: "\<bar>dval r * dval w\<bar> \<le> 2 * R" if "\<bar>dval w\<bar> \<le> 2" for w
  proof -
    have "\<bar>dval r\<bar> * \<bar>dval w\<bar> \<le> R * 2" using box(2) that by (intro mult_mono) simp_all
    then show ?thesis by (simp add: abs_mult)
  qed
  have step: "is_finite (fmul r w) \<and> \<bar>dval (fmul r w) - dval r * dval w\<bar> \<le> u * (2 * R) + h
      \<and> is_finite (fadd c0 (fmul r w))
      \<and> \<bar>dval (fadd c0 (fmul r w)) - (dval c0 + dval (fmul r w))\<bar> \<le> u * (4 * R) + h"
    if w: "is_finite w" "\<bar>dval w\<bar> \<le> 2" for w
  proof -
    have lt2: "2 * R < pow2 1023" using big box(3) by linarith
    note m = fmul_err[OF fin(2) w(1) prod[OF w(2)] lt2]
    have "u \<le> 1 / 4" unfolding u by simp
    then have "u * (2 * R) \<le> 1 / 4 * (2 * R)" using box(3) by (intro mult_right_mono) simp_all
    then have "u * (2 * R) \<le> R / 2" by simp
    moreover have "h \<le> 1 / 2" using h(2) by simp
    ultimately have uR: "u * (2 * R) + h \<le> R" using box(3) by linarith
    have "\<bar>dval (fmul r w)\<bar> \<le> 3 * R"
      using m(2) prod[OF w(2)] uR unfolding u_def h_def by linarith
    then have s: "\<bar>dval c0 + dval (fmul r w)\<bar> \<le> 4 * R" using box(1) by linarith
    note a = fadd_err[OF fin(1) m(1) s big]
    show ?thesis using m a unfolding u_def h_def by simp
  qed
  note s = step[OF fin(3) q(1)] and s' = step[OF fin(4) q(2)]
  show "is_finite (fadd c0 (fmul r q))" using s by simp
  show "is_finite (fadd c0 (fmul r q'))" using s' by simp
  have "\<bar>dval r * dval q' - dval r * dval q\<bar> = \<bar>dval r\<bar> * \<bar>dval q' - dval q\<bar>"
    by (simp add: abs_mult right_diff_distrib[symmetric])
  also have "\<dots> \<le> R * D"
    using box(2) q(3) by (intro mult_mono) simp_all
  finally have d: "\<bar>dval r * dval q' - dval r * dval q\<bar> \<le> R * D" .
  have "\<bar>dval (fadd c0 (fmul r q')) - dval (fadd c0 (fmul r q))\<bar>
       \<le> R * D + 12 * (u * R) + 4 * h"
    using s s' d by (simp add: algebra_simps) linarith
  then show "\<bar>dval (fadd c0 (fmul r q')) - dval (fadd c0 (fmul r q))\<bar>
       \<le> R * D + 12 * (pow2 (- 53) * R) + 4 * pow2 (- 1075)"
    unfolding u_def h_def .
qed

section \<open>The period of the ellipse, within a tolerance\<close>

lemma correctly_rounded_ulp:
  assumes "is_finite v"
  shows "is_finite (cos_d correctly_rounded v)"
    "\<bar>dval (cos_d correctly_rounded v) - cos (dval v)\<bar> \<le> 1 / 2 ^ 53"
    "is_finite (sin_d correctly_rounded v)"
    "\<bar>dval (sin_d correctly_rounded v) - sin (dval v)\<bar> \<le> 1 / 2 ^ 53"
proof -
  have c1: "\<bar>cos (dval v)\<bar> < 2" and s1: "\<bar>sin (dval v)\<bar> < 2"
    using abs_cos_le_one[of "dval v"] abs_sin_le_one[of "dval v"] by linarith+
  show "is_finite (cos_d correctly_rounded v)"
    "\<bar>dval (cos_d correctly_rounded v) - cos (dval v)\<bar> \<le> 1 / 2 ^ 53"
    using round_real_err[OF c1, of False] assms
    by (simp_all add: cos_d_correctly_rounded small_consts(1))
  show "is_finite (sin_d correctly_rounded v)"
    "\<bar>dval (sin_d correctly_rounded v) - sin (dval v)\<bar> \<le> 1 / 2 ^ 53"
    using round_real_err[OF s1, of "dsign v"] assms
    by (simp_all add: sin_d_correctly_rounded small_consts(1))
qed

lemma factor_close:
  fixes f :: "real \<Rightarrow> real"
  assumes lip: "\<And>s t. \<bar>f s - f t\<bar> \<le> \<bar>s - t\<bar>" and per: "\<And>t. f (t + 2 * pi) = f t"
    and q: "\<bar>q - f t\<bar> \<le> \<delta>" and q': "\<bar>q' - f t'\<bar> \<le> \<delta>"
    and d: "\<bar>t' - t - 2 * pi\<bar> \<le> \<Delta>"
  shows "\<bar>q' - q\<bar> \<le> \<Delta> + 2 * \<delta>"
proof -
  have "\<bar>f t' - f (t + 2 * pi)\<bar> \<le> \<bar>t' - (t + 2 * pi)\<bar>" by (rule lip)
  then have "\<bar>f t' - f t\<bar> \<le> \<Delta>" using d by (simp add: per diff_diff_eq)
  then show ?thesis using q q' by linarith
qed

lemma period_budget:
  fixes R T \<delta> \<Delta> E :: real
  assumes R: "1 \<le> R" and T: "0 \<le> T"
    and \<Delta>: "\<Delta> \<le> pow2 (- 53) * (T + 7) + pow2 (- 1075) + 1 / 2 ^ 51"
    and E: "E \<le> R * (\<Delta> + 2 * \<delta>) + 12 * (pow2 (- 53) * R) + 4 * pow2 (- 1075)"
  shows "E \<le> R * (1 / 2 ^ 53 * T + 1 / 2 ^ 48 + 2 * \<delta>)"
proof -
  define h where "h = pow2 (- 1075)"
  define u where "u = pow2 (- 53)"
  have h: "0 < h" "h \<le> 1 / 2 ^ 60" unfolding h_def by (rule small_consts(2), rule small_consts(3))
  have u: "u = 1 / 2 ^ 53" unfolding u_def by (rule small_consts(1))
  have k: "(1::real) / 2 ^ 51 = 4 * u" "(1::real) / 2 ^ 48 = 32 * u" "5 * h \<le> u"
    using h unfolding u by simp_all
  have "R * \<Delta> \<le> R * (u * (T + 7) + h + 4 * u)"
    using \<Delta> R unfolding h_def u_def k(1)[unfolded u_def] by (intro mult_left_mono) simp_all
  then have 1: "R * \<Delta> \<le> R * u * T + 11 * (R * u) + R * h" by (simp add: algebra_simps)
  have "1 * (4 * h) \<le> R * (4 * h)" using R h by (intro mult_right_mono) simp_all
  then have 2: "4 * h \<le> 4 * (R * h)" by simp
  have "R * (5 * h) \<le> R * u" using R k(3) by (intro mult_left_mono) simp_all
  then have 3: "5 * (R * h) \<le> R * u" by simp
  have 4: "0 \<le> R * u" using R unfolding u by simp
  have "E \<le> R * \<Delta> + 2 * (R * \<delta>) + 12 * (R * u) + 4 * h"
    using E unfolding h_def u_def by (simp add: algebra_simps)
  then have "E \<le> R * u * T + 32 * (R * u) + 2 * (R * \<delta>)" using 1 2 3 4 by linarith
  also have "\<dots> = R * (u * T + 32 * u + 2 * \<delta>)" by (simp add: algebra_simps)
  finally show ?thesis unfolding k(2) u[symmetric] .
qed

text \<open>
  C6, amended. Take an ellipse whose origin and semi-axes are finite, of magnitude at
  most \<open>R\<close> with \<open>1 \<le> R \<le> 2^1000\<close>, a finite angle \<open>\<theta>\<close> of magnitude at most
  \<open>T \<le> 2^1000\<close>, and any library whose \<open>cos\<close> and \<open>sin\<close> are finite and within
  \<open>\<delta> \<le> 1\<close> of the exact cosine and sine, at \<open>\<theta>\<close> and at the double \<open>\<theta> + M_PI \<sqdot> 2\<close>.
  Then the points of the ellipse at the two angles are finite, they have the same third
  component, and their first components, and their second components, differ by at most
  \<open>R \<sqdot> (T \<sqdot> 2^-53 + 2^-48 + 2 \<sqdot> \<delta>)\<close>. The tolerance is a few units in the last place
  of \<open>R\<close> for an angle of moderate size and a library accurate to a unit in the last
  place, and it grows in proportion to the angle, as it must: at \<open>2^54\<close> the points are
  more than 1 apart.
\<close>

theorem ellipse3d_period_within_tolerance:
  assumes fin: "is_finite (x (position e))" "is_finite (y (position e))"
      "is_finite (ellipse3d.a e)" "is_finite (ellipse3d.b e)" "is_finite \<theta>"
    and box: "\<bar>dval (x (position e))\<bar> \<le> R" "\<bar>dval (y (position e))\<bar> \<le> R"
      "\<bar>dval (ellipse3d.a e)\<bar> \<le> R" "\<bar>dval (ellipse3d.b e)\<bar> \<le> R" "1 \<le> R" "R \<le> 2 ^ 1000"
    and ang: "\<bar>dval \<theta>\<bar> \<le> T" "T \<le> 2 ^ 1000"
    and lib: "is_finite (cos_d M \<theta>)" "\<bar>dval (cos_d M \<theta>) - cos (dval \<theta>)\<bar> \<le> \<delta>"
      "is_finite (sin_d M \<theta>)" "\<bar>dval (sin_d M \<theta>) - sin (dval \<theta>)\<bar> \<le> \<delta>"
      "is_finite (cos_d M (fadd \<theta> (fmul M_PI (double_of_int 2))))"
      "\<bar>dval (cos_d M (fadd \<theta> (fmul M_PI (double_of_int 2))))
         - cos (dval (fadd \<theta> (fmul M_PI (double_of_int 2))))\<bar> \<le> \<delta>"
      "is_finite (sin_d M (fadd \<theta> (fmul M_PI (double_of_int 2))))"
      "\<bar>dval (sin_d M (fadd \<theta> (fmul M_PI (double_of_int 2))))
         - sin (dval (fadd \<theta> (fmul M_PI (double_of_int 2))))\<bar> \<le> \<delta>"
      "\<delta> \<le> 1"
  shows "z (calculate M (Ellipse e) (fadd \<theta> (fmul M_PI (double_of_int 2))))
           = z (calculate M (Ellipse e) \<theta>)
     \<and> is_finite (x (calculate M (Ellipse e) \<theta>))
     \<and> is_finite (y (calculate M (Ellipse e) \<theta>))
     \<and> is_finite (x (calculate M (Ellipse e) (fadd \<theta> (fmul M_PI (double_of_int 2)))))
     \<and> is_finite (y (calculate M (Ellipse e) (fadd \<theta> (fmul M_PI (double_of_int 2)))))
     \<and> \<bar>dval (x (calculate M (Ellipse e) (fadd \<theta> (fmul M_PI (double_of_int 2)))))
          - dval (x (calculate M (Ellipse e) \<theta>))\<bar>
         \<le> R * (1 / 2 ^ 53 * T + 1 / 2 ^ 48 + 2 * \<delta>)
     \<and> \<bar>dval (y (calculate M (Ellipse e) (fadd \<theta> (fmul M_PI (double_of_int 2)))))
          - dval (y (calculate M (Ellipse e) \<theta>))\<bar>
         \<le> R * (1 / 2 ^ 53 * T + 1 / 2 ^ 48 + 2 * \<delta>)"
proof -
  define \<theta>' where "\<theta>' = fadd \<theta> (fmul M_PI (double_of_int 2))"
  define \<Delta> where "\<Delta> = \<bar>dval \<theta>' - dval \<theta> - 2 * pi\<bar>"
  have R': "R \<le> pow2 1000" and T': "T \<le> pow2 1000" using box(6) ang(2) small_consts(6) by simp_all
  have T0: "0 \<le> T" using ang(1) by linarith
  have \<Delta>: "\<Delta> \<le> pow2 (- 53) * (T + 7) + pow2 (- 1075) + 1 / 2 ^ 51"
    unfolding \<Delta>_def \<theta>'_def by (rule angle_sum_close(2)[OF fin(5) ang(1) T'])
  have d: "\<bar>dval \<theta>' - dval \<theta> - 2 * pi\<bar> \<le> \<Delta>" by (simp add: \<Delta>_def)
  have \<delta>0: "0 \<le> \<delta>" using lib(2) by linarith
  have qc: "\<bar>dval (cos_d M \<theta>)\<bar> \<le> 2" "\<bar>dval (cos_d M \<theta>')\<bar> \<le> 2"
    using lib(2,6,9) abs_cos_le_one[of "dval \<theta>"] abs_cos_le_one[of "dval \<theta>'"]
    unfolding \<theta>'_def by linarith+
  have qs: "\<bar>dval (sin_d M \<theta>)\<bar> \<le> 2" "\<bar>dval (sin_d M \<theta>')\<bar> \<le> 2"
    using lib(4,8,9) abs_sin_le_one[of "dval \<theta>"] abs_sin_le_one[of "dval \<theta>'"]
    unfolding \<theta>'_def by linarith+
  have dc: "\<bar>dval (cos_d M \<theta>') - dval (cos_d M \<theta>)\<bar> \<le> \<Delta> + 2 * \<delta>"
    by (rule factor_close[of cos, OF cos_lipschitz _ lib(2) lib(6)[folded \<theta>'_def] d]) simp
  have ds: "\<bar>dval (sin_d M \<theta>') - dval (sin_d M \<theta>)\<bar> \<le> \<Delta> + 2 * \<delta>"
    by (rule factor_close[of sin, OF sin_lipschitz _ lib(4) lib(8)[folded \<theta>'_def] d]) simp
  note cx = coordinate_close[OF fin(1) fin(3) lib(1) lib(5)[folded \<theta>'_def] box(1) box(3) box(5) R' qc dc]
  note cy = coordinate_close[OF fin(2) fin(4) lib(3) lib(7)[folded \<theta>'_def] box(2) box(4) box(5) R' qs ds]
  note tx = period_budget[OF box(5) T0 \<Delta> cx(3)]
  note ty = period_budget[OF box(5) T0 \<Delta> cy(3)]
  show ?thesis
    using cx(1,2) cy(1,2) tx ty
    unfolding \<theta>'_def[symmetric]
    by (simp add: ellipse3d_calculate_def vector3d_new_def)
qed

text \<open>
  The ellipse with origin \<open>(3, 4, 0)\<close> and semi-axes 2 and 1, at the angle 1, with \<open>cos\<close>
  and \<open>sin\<close> correctly rounded.
\<close>

theorem ellipse3d_period_within_tolerance_witness:
  "\<bar>dval (x (calculate correctly_rounded
        (Ellipse (ellipse3d_xyab (Finite 3) (Finite 4) (Finite 2) (Finite 1)))
        (fadd (Finite 1) (fmul M_PI (double_of_int 2)))))
     - dval (x (calculate correctly_rounded
        (Ellipse (ellipse3d_xyab (Finite 3) (Finite 4) (Finite 2) (Finite 1))) (Finite 1)))\<bar>
     \<le> 4 * (1 / 2 ^ 53 * 1 + 1 / 2 ^ 48 + 2 * (1 / 2 ^ 53))
   \<and> \<bar>dval (y (calculate correctly_rounded
        (Ellipse (ellipse3d_xyab (Finite 3) (Finite 4) (Finite 2) (Finite 1)))
        (fadd (Finite 1) (fmul M_PI (double_of_int 2)))))
     - dval (y (calculate correctly_rounded
        (Ellipse (ellipse3d_xyab (Finite 3) (Finite 4) (Finite 2) (Finite 1))) (Finite 1)))\<bar>
     \<le> 4 * (1 / 2 ^ 53 * 1 + 1 / 2 ^ 48 + 2 * (1 / 2 ^ 53))"
proof -
  let ?e = "ellipse3d_xyab (Finite 3) (Finite 4) (Finite 2) (Finite 1)"
  have f: "is_finite (Finite 1)" by simp
  have s: "is_finite (fadd (Finite 1) (fmul M_PI (double_of_int 2)))"
    by (rule angle_sum_close(1)[of _ 1]) (simp_all add: pow2_def)
  have e: "is_finite (x (position ?e))" "is_finite (y (position ?e))"
    "is_finite (ellipse3d.a ?e)" "is_finite (ellipse3d.b ?e)"
    "\<bar>dval (x (position ?e))\<bar> \<le> 4" "\<bar>dval (y (position ?e))\<bar> \<le> 4"
    "\<bar>dval (ellipse3d.a ?e)\<bar> \<le> 4" "\<bar>dval (ellipse3d.b ?e)\<bar> \<le> 4"
    by (simp_all add: ellipse3d_xyab_def ellipse3d_xyzab_def vector3d_new_def)
  have n: "(1::real) \<le> 4" "(4::real) \<le> 2 ^ 1000" "\<bar>dval (Finite 1)\<bar> \<le> 1" "(1::real) \<le> 2 ^ 1000"
    "(1::real) / 2 ^ 53 \<le> 1"
    by simp_all
  show ?thesis
    using ellipse3d_period_within_tolerance[OF e(1-4) f e(5-8) n(1-4)
        correctly_rounded_ulp[OF f] correctly_rounded_ulp[OF s] n(5)]
    by blast
qed

section \<open>The full turn of the helix\<close>

text \<open>
  C7, amended. The constructor with one radius sets both axes to the radius and the
  phase to 0. For any library whose \<open>cos\<close> and \<open>sin\<close> are finite and within \<open>\<delta> \<le> 1/4\<close>
  of the exact cosine and sine at the double \<open>M_PI \<sqdot> 2\<close>, the helix with origin
  \<open>(0, 0, 0)\<close>, radius 1 and pitch \<open>M_PI \<sqdot> 2\<close> has, at the angle \<open>M_PI \<sqdot> 2\<close>, a point
  whose first component is within \<open>\<delta> + 2^-50\<close> of 1, whose second component is within
  \<open>\<delta> + 2^-50\<close> of 0, and whose third component is the pitch itself, the double
  \<open>M_PI \<sqdot> 2\<close>, which is within \<open>2^-51\<close> of \<open>2\<pi>\<close>: one full turn advances the height by
  exactly the pitch. The point is \<open>(1, 0, 2\<pi>)\<close> within that tolerance, not \<open>(1, 0, 1)\<close>.
\<close>

theorem helix3d_full_turn:
  assumes "is_finite (cos_d M (fmul M_PI (double_of_int 2)))"
    "\<bar>dval (cos_d M (fmul M_PI (double_of_int 2))) - cos (dval (fmul M_PI (double_of_int 2)))\<bar> \<le> \<delta>"
    "is_finite (sin_d M (fmul M_PI (double_of_int 2)))"
    "\<bar>dval (sin_d M (fmul M_PI (double_of_int 2))) - sin (dval (fmul M_PI (double_of_int 2)))\<bar> \<le> \<delta>"
    "\<delta> \<le> 1 / 4"
  shows "helix3d_xyzrs px py pz r st = helix3d_full px py pz r r st (Finite 0)
   \<and> helix3d.a (helix3d_xyzrs px py pz r st) = r
   \<and> helix3d.b (helix3d_xyzrs px py pz r st) = r
   \<and> angle_start (helix3d_xyzrs px py pz r st) = Finite 0
   \<and> is_finite (x (calculate M
        (Helix (helix3d_xyzrs (Finite 0) (Finite 0) (Finite 0) (Finite 1) (fmul M_PI (double_of_int 2))))
        (fmul M_PI (double_of_int 2))))
   \<and> \<bar>dval (x (calculate M
        (Helix (helix3d_xyzrs (Finite 0) (Finite 0) (Finite 0) (Finite 1) (fmul M_PI (double_of_int 2))))
        (fmul M_PI (double_of_int 2)))) - 1\<bar> \<le> \<delta> + 1 / 2 ^ 50
   \<and> is_finite (y (calculate M
        (Helix (helix3d_xyzrs (Finite 0) (Finite 0) (Finite 0) (Finite 1) (fmul M_PI (double_of_int 2))))
        (fmul M_PI (double_of_int 2))))
   \<and> \<bar>dval (y (calculate M
        (Helix (helix3d_xyzrs (Finite 0) (Finite 0) (Finite 0) (Finite 1) (fmul M_PI (double_of_int 2))))
        (fmul M_PI (double_of_int 2)))) - 0\<bar> \<le> \<delta> + 1 / 2 ^ 50
   \<and> z (calculate M
        (Helix (helix3d_xyzrs (Finite 0) (Finite 0) (Finite 0) (Finite 1) (fmul M_PI (double_of_int 2))))
        (fmul M_PI (double_of_int 2)))
     = step (helix3d_xyzrs (Finite 0) (Finite 0) (Finite 0) (Finite 1) (fmul M_PI (double_of_int 2)))
   \<and> z (calculate M
        (Helix (helix3d_xyzrs (Finite 0) (Finite 0) (Finite 0) (Finite 1) (fmul M_PI (double_of_int 2))))
        (fmul M_PI (double_of_int 2)))
     = fmul M_PI (double_of_int 2)
   \<and> \<bar>dval (fmul M_PI (double_of_int 2)) - 2 * pi\<bar> \<le> 1 / 2 ^ 51"
proof -
  let ?c = "884279719003555 / 2 ^ 47 :: real"
  let ?qc = "cos_d M (Finite ?c)" and ?qs = "sin_d M (Finite ?c)"
  note a = assms[unfolded two_pi dval.simps]
  have \<delta>0: "0 \<le> \<delta>" using a(2) by linarith
  have far: "\<bar>?c - 2 * pi\<bar> \<le> 1 / 2 ^ 51" by (rule two_pi_close)
  have "\<bar>cos ?c - cos (2 * pi)\<bar> \<le> \<bar>?c - 2 * pi\<bar>" by (rule cos_lipschitz)
  then have c1: "\<bar>cos ?c - 1\<bar> \<le> 1 / 2 ^ 51" using far by simp
  have "\<bar>sin ?c - sin (2 * pi)\<bar> \<le> \<bar>?c - 2 * pi\<bar>" by (rule sin_lipschitz)
  then have s0: "\<bar>sin ?c\<bar> \<le> 1 / 2 ^ 51" using far by simp
  have bc: "\<bar>dval ?qc\<bar> \<le> 3 / 2" using a(2,5) abs_cos_le_one[of ?c] by linarith
  have bs: "\<bar>dval ?qs\<bar> \<le> 3 / 2" using a(4,5) abs_sin_le_one[of ?c] by linarith
  note ex = coordinate_err[OF a(1) bc] and ey = coordinate_err[OF a(3) bs]
  have u: "2 * pow2 (- 53) = 1 / 2 ^ 52" by (simp add: pow2_def)
  have k: "(1::real) / 2 ^ 52 + 1 / 2 ^ 51 \<le> 1 / 2 ^ 50" by simp
  have X: "\<bar>dval (fadd (Finite 0) (fmul (Finite 1) ?qc)) - 1\<bar> \<le> \<delta> + 1 / 2 ^ 50"
    using ex(2)[unfolded u] a(2) c1 k by linarith
  have Y: "\<bar>dval (fadd (Finite 0) (fmul (Finite 1) ?qs))\<bar> \<le> \<delta> + 1 / 2 ^ 50"
    using ey(2)[unfolded u] a(4) s0 k by linarith
  let ?h = "helix3d_full (Finite 0) (Finite 0) (Finite 0) (Finite 1) (Finite 1) (Finite ?c) (Finite 0)"
  have xe: "x (calculate M (Helix ?h) (Finite ?c)) = fadd (Finite 0) (fmul (Finite 1) ?qc)"
    and ye: "y (calculate M (Helix ?h) (Finite ?c)) = fadd (Finite 0) (fmul (Finite 1) ?qs)"
    by (simp_all add: helix3d_calculate_def helix3d_full_def vector3d_new_def)
  have ze: "z (calculate M (Helix ?h) (Finite ?c)) = Finite ?c"
    unfolding helix3d_z two_pi by (simp add: eval_double)
  have se: "step ?h = Finite ?c" by (simp add: helix3d_full_def)
  show ?thesis
    unfolding helix3d_xyzrs_full two_pi xe ye ze se
    using ex(1) ey(1) X Y far
    by (simp add: helix3d_full_def)
qed

text \<open>The same helix with \<open>cos\<close> and \<open>sin\<close> correctly rounded, \<open>\<delta> = 2^-53\<close>.\<close>

theorem helix3d_full_turn_witness:
  "is_finite (cos_d correctly_rounded (fmul M_PI (double_of_int 2)))
   \<and> is_finite (sin_d correctly_rounded (fmul M_PI (double_of_int 2)))
   \<and> \<bar>dval (x (calculate correctly_rounded
        (Helix (helix3d_xyzrs (Finite 0) (Finite 0) (Finite 0) (Finite 1) (fmul M_PI (double_of_int 2))))
        (fmul M_PI (double_of_int 2)))) - 1\<bar> \<le> 1 / 2 ^ 53 + 1 / 2 ^ 50
   \<and> \<bar>dval (y (calculate correctly_rounded
        (Helix (helix3d_xyzrs (Finite 0) (Finite 0) (Finite 0) (Finite 1) (fmul M_PI (double_of_int 2))))
        (fmul M_PI (double_of_int 2)))) - 0\<bar> \<le> 1 / 2 ^ 53 + 1 / 2 ^ 50
   \<and> z (calculate correctly_rounded
        (Helix (helix3d_xyzrs (Finite 0) (Finite 0) (Finite 0) (Finite 1) (fmul M_PI (double_of_int 2))))
        (fmul M_PI (double_of_int 2)))
     = fmul M_PI (double_of_int 2)"
proof -
  have f: "is_finite (fmul M_PI (double_of_int 2))" unfolding two_pi by simp
  have n: "(1::real) / 2 ^ 53 \<le> 1 / 4" by simp
  note l = correctly_rounded_ulp[OF f]
  show ?thesis
    using helix3d_full_turn[OF l n, of "Finite 0" "Finite 0" "Finite 0" "Finite 1" "Finite 1"] l(1,3)
    by blast
qed

end
